theory Spec2Isabelle
  imports Main
begin

section \<open>Data model of \<^verbatim>\<open>runtime_scan/pkg/provider/aws/client.go\<close>\<close>

text \<open>
  Go strings are byte strings and are modelled by \<^typ>\<open>string\<close>. A Go pointer
  \<^verbatim>\<open>*T\<close> is a \<^typ>\<open>'a option\<close> (\<^term>\<open>None\<close> is \<^verbatim>\<open>nil\<close>); dereferencing
  \<^verbatim>\<open>nil\<close> and indexing out of range panic, and a panic is a value of the model.

  A slice is a list of its elements wherever the file only builds it, measures it with
  \<^verbatim>\<open>len\<close> or ranges over it; a \<^verbatim>\<open>nil\<close> slice and an empty one are then the same list.
  The slices \<^verbatim>\<open>filters\<close> and \<^verbatim>\<open>vpcFilters\<close> of \<^verbatim>\<open>Discover\<close> are different: the second
  is appended from the first in a loop, so they are modelled with their backing arrays.
  The \<^verbatim>\<open>context.Context\<close> arguments and the log lines are left out.

  A field keeps its name in the source, with a prefix where two structs share the name
  or where the name is taken in HOL (\<open>region_name\<close>, \<open>vpc_id\<close>, \<open>tag_Key\<close>,
  \<open>input_NextToken\<close>); the parameter \<^verbatim>\<open>id\<close> is \<open>ident\<close>.
\<close>

datatype panic = NilDereference | IndexOutOfRange

subsection \<open>The scope as the package keeps it\<close>

record Tag =
  Key :: string
  Val :: string

record SecurityGroup =
  sg_id :: string

record VPC =
  vpc_id :: string
  vpc_securityGroups :: "SecurityGroup list"

record Region =
  region_name :: string
  region_vpcs :: "VPC list"

record ScanScope =
  AllRegions :: bool
  Regions :: "Region list"
  ScanStopped :: bool
  TagSelector :: "Tag list"
  ExcludeTags :: "Tag list"

subsection \<open>The provider's types that the file reads and builds\<close>

text \<open>\<^verbatim>\<open>ec2types.Filter\<close>: \<^verbatim>\<open>Name *string\<close>, \<^verbatim>\<open>Values []string\<close>.\<close>

record Filter =
  Name :: "string option"
  Values :: "string list"

text \<open>\<^verbatim>\<open>ec2types.Tag\<close>: both fields are \<^verbatim>\<open>*string\<close>.\<close>

record ec2types_Tag =
  tag_Key :: "string option"
  tag_Value :: "string option"

text \<open>
  \<^verbatim>\<open>ec2types.Instance\<close> (the fields the file reads), \<^verbatim>\<open>ec2types.Reservation\<close>
  and the input and output of \<^verbatim>\<open>DescribeInstances\<close>. \<^verbatim>\<open>MaxResults\<close> is an
  \<^verbatim>\<open>*int32\<close>; the file only passes a constant through, so an \<^typ>\<open>int\<close> holds it.
\<close>

record ec2types_Placement =
  AvailabilityZone :: "string option"

record ec2types_Instance =
  InstanceId :: "string option"
  Tags :: "ec2types_Tag list"
  Placement :: "ec2types_Placement option"

record ec2types_Reservation =
  Instances :: "ec2types_Instance list"

record DescribeInstancesInput =
  Filters :: "Filter list"
  MaxResults :: "int option"
  input_NextToken :: "string option"

record DescribeInstancesOutput =
  Reservations :: "ec2types_Reservation list"
  NextToken :: "string option"

text \<open>\<^verbatim>\<open>DescribeRegions\<close>: the input's \<^verbatim>\<open>AllRegions *bool\<close>, the output's regions.\<close>

record DescribeRegionsInput =
  input_AllRegions :: "bool option"

record ec2types_Region =
  RegionName :: "string option"

record DescribeRegionsOutput =
  output_Regions :: "ec2types_Region list"

text \<open>\<^verbatim>\<open>RunInstances\<close>: the fields of the launch request that the file sets.\<close>

datatype ResourceType = ResourceTypeInstance | ResourceTypeVolume

datatype InstanceType = InstanceTypeT2Large

record TagSpecification =
  ResourceType :: ResourceType
  spec_Tags :: "ec2types_Tag list"

record InstanceNetworkInterfaceSpecification =
  AssociatePublicIpAddress :: "bool option"
  DeleteOnTermination :: "bool option"
  DeviceIndex :: "int option"
  Groups :: "string list"
  SubnetId :: "string option"

record RunInstancesInput =
  MaxCount :: "int option"
  MinCount :: "int option"
  ImageId :: "string option"
  InstanceType :: InstanceType
  TagSpecifications :: "TagSpecification list"
  UserData :: "string option"
  NetworkInterfaces :: "InstanceNetworkInterfaceSpecification list"
  KeyName :: "string option"

record RunInstancesOutput =
  output_Instances :: "ec2types_Instance list"

subsection \<open>The scope as the API hands it over (\<^verbatim>\<open>models\<close>)\<close>

record models_Tag =
  models_Key :: string
  models_Value :: string

record models_AwsSecurityGroup =
  models_sg_Id :: string

record models_AwsVPC =
  models_vpc_Id :: string
  models_SecurityGroups :: "models_AwsSecurityGroup list option"

record models_AwsRegion =
  models_Name :: string
  models_Vpcs :: "models_AwsVPC list option"

record models_AwsScanScope =
  models_AllRegions :: "bool option"
  models_Regions :: "models_AwsRegion list option"
  ShouldScanStoppedInstances :: "bool option"
  InstanceTagSelector :: "models_Tag list option"
  InstanceTagExclusion :: "models_Tag list option"

subsection \<open>What the client returns and what it is configured with\<close>

text \<open>
  \<^verbatim>\<open>InstanceImpl\<close>, the implementation of \<^verbatim>\<open>types.Instance\<close>; its \<^verbatim>\<open>ec2Client\<close> field
  is always the client's own and is left out. \<^verbatim>\<open>aws.Config\<close>,
  \<^verbatim>\<open>provider.ScanningJobConfig\<close> and \<^verbatim>\<open>cloudinit.Data\<close> with the fields the file reads.
\<close>

record InstanceImpl =
  inst_id :: string
  inst_region :: string
  inst_availabilityZone :: string

record Config =
  AmiID :: string
  SecurityGroupID :: string
  SubnetID :: string

record ScanningJobConfig =
  ScannerImage :: string
  ScannerCLIConfig :: string
  VMClarityAddress :: string
  ScanResultID :: string
  KeyPairName :: string

record cloudinit_Data =
  data_ScannerCLIConfig :: string
  data_ScannerImage :: string
  data_ServerAddress :: string
  data_ScanResultID :: string

section \<open>Filter compilation\<close>

definition vpcIDFilterName :: string where
  "vpcIDFilterName = ''vpc-id''"

definition sgIDFilterName :: string where
  "sgIDFilterName = ''instance.group-id''"

definition instanceStateFilterName :: string where
  "instanceStateFilterName = ''instance-state-name''"

text \<open>
  \<^verbatim>\<open>getVPCSecurityGroupsIDs\<close> allocates \<^verbatim>\<open>make([]string, len(vpc.securityGroups))\<close>
  (every slot the empty string) and stores \<^verbatim>\<open>sgs[i] = sg.id\<close> for each index of the
  range loop; the index is always below the length, so the store never panics.
\<close>

fun getVPCSecurityGroupsIDs_loop :: "nat \<Rightarrow> SecurityGroup list \<Rightarrow> string list \<Rightarrow> string list" where
  "getVPCSecurityGroupsIDs_loop i [] sgs = sgs"
| "getVPCSecurityGroupsIDs_loop i (sg # rest) sgs =
     getVPCSecurityGroupsIDs_loop (Suc i) rest (sgs[i := sg_id sg])"

definition getVPCSecurityGroupsIDs :: "VPC \<Rightarrow> string list" where
  "getVPCSecurityGroupsIDs vpc =
     getVPCSecurityGroupsIDs_loop 0 (vpc_securityGroups vpc)
       (replicate (length (vpc_securityGroups vpc)) [])"

text \<open>\<^verbatim>\<open>createVPCFilters\<close>; the log line has no effect on the result.\<close>

definition createVPCFilters :: "VPC \<Rightarrow> Filter list" where
  "createVPCFilters vpc =
     (let ret = [];
          ret = ret @ [\<lparr>Name = Some vpcIDFilterName, Values = [vpc_id vpc]\<rparr>];
          sgs = getVPCSecurityGroupsIDs vpc
      in if length sgs > 0
         then ret @ [\<lparr>Name = Some sgIDFilterName, Values = sgs\<rparr>]
         else ret)"

definition createInstanceStateFilters :: "bool \<Rightarrow> Filter list" where
  "createInstanceStateFilters scanStopped =
     (let filters = [];
          states = [''running''];
          states = (if scanStopped then states @ [''stopped''] else states)
      in filters @ [\<lparr>Name = Some instanceStateFilterName, Values = states\<rparr>])"

text \<open>\<^verbatim>\<open>createInclusionTagsFilters\<close>: the range loop appends one filter per tag.\<close>

fun createInclusionTagsFilters_loop :: "Tag list \<Rightarrow> Filter list \<Rightarrow> Filter list" where
  "createInclusionTagsFilters_loop [] filters = filters"
| "createInclusionTagsFilters_loop (tag # rest) filters =
     createInclusionTagsFilters_loop rest
       (filters @ [\<lparr>Name = Some (''tag:'' @ Key tag), Values = [Val tag]\<rparr>])"

definition createInclusionTagsFilters :: "Tag list \<Rightarrow> Filter list" where
  "createInclusionTagsFilters tags = createInclusionTagsFilters_loop tags []"

section \<open>Tag exclusion\<close>

text \<open>
  The first loop of \<^verbatim>\<open>hasExcludeTags\<close>:
  \<^verbatim>\<open>instanceTagsMap[*tag.Key] = *tag.Value\<close> for every instance tag, in order.
  A later tag with the same key overwrites the earlier one; a \<^verbatim>\<open>nil\<close> key or
  value panics.
\<close>

fun instanceTagsMap_fill ::
  "ec2types_Tag list \<Rightarrow> (string \<rightharpoonup> string) \<Rightarrow> panic + (string \<rightharpoonup> string)" where
  "instanceTagsMap_fill [] m = Inr m"
| "instanceTagsMap_fill (tag # rest) m =
     (case tag_Key tag of
        None \<Rightarrow> Inl NilDereference
      | Some k \<Rightarrow>
         (case tag_Value tag of
            None \<Rightarrow> Inl NilDereference
          | Some v \<Rightarrow> instanceTagsMap_fill rest (m(k \<mapsto> v))))"

text \<open>
  The second loop: the first excluded tag whose key is missing from the map, or whose
  value differs (\<^verbatim>\<open>strings.Compare\<close> is not 0), returns false.
\<close>

fun excludeTags_all_found :: "Tag list \<Rightarrow> (string \<rightharpoonup> string) \<Rightarrow> bool" where
  "excludeTags_all_found [] m = True"
| "excludeTags_all_found (tag # rest) m =
     (case m (Key tag) of
        None \<Rightarrow> False
      | Some val \<Rightarrow> if val \<noteq> Val tag then False else excludeTags_all_found rest m)"

definition hasExcludeTags :: "Tag list \<Rightarrow> ec2types_Tag list \<Rightarrow> panic + bool" where
  "hasExcludeTags excludeTags instanceTags =
     (if length excludeTags = 0 then Inr False
      else if length instanceTags = 0 then Inr False
      else case instanceTagsMap_fill instanceTags Map.empty of
             Inl p \<Rightarrow> Inl p
           | Inr instanceTagsMap \<Rightarrow> Inr (excludeTags_all_found excludeTags instanceTagsMap))"

text \<open>
  The exclusion rule in the words of the specification: the exclusion set and the
  instance's tags are both non-empty, and every excluded pair is among the instance's
  tags with the same value.
\<close>

definition excluded_by_rule :: "Tag list \<Rightarrow> ec2types_Tag list \<Rightarrow> bool" where
  "excluded_by_rule excludeTags instanceTags \<longleftrightarrow>
     excludeTags \<noteq> [] \<and> instanceTags \<noteq> [] \<and>
     list_all (\<lambda>t. \<lparr>tag_Key = Some (Key t), tag_Value = Some (Val t)\<rparr> \<in> set instanceTags)
       excludeTags"

text \<open>The value that the last tag with key \<open>k\<close> carries, if there is such a tag.\<close>

fun last_value_of :: "ec2types_Tag list \<Rightarrow> string \<Rightarrow> string option" where
  "last_value_of [] k = None"
| "last_value_of (tag # rest) k =
     (case last_value_of rest k of
        Some v \<Rightarrow> Some v
      | None \<Rightarrow> if tag_Key tag = Some k then tag_Value tag else None)"

definition tags_set :: "ec2types_Tag list \<Rightarrow> bool" where
  "tags_set instanceTags \<longleftrightarrow>
     list_all (\<lambda>t. tag_Key t \<noteq> None \<and> tag_Value t \<noteq> None) instanceTags"

section \<open>The world outside the functions\<close>

text \<open>
  What a call can end with: a returned value, a returned \<^verbatim>\<open>error\<close> (its message), a
  panic, or the pagination loop still running when its step bound is used up.
\<close>

datatype 'a outcome = Ok 'a | Err string | Panicked panic | OutOfFuel

text \<open>
  The EC2 client is outside the repository. It is a state machine of any state type
  \<open>'p\<close>: each operation takes the provider's state, the request and (where the call
  sets \<^verbatim>\<open>options.Region\<close>) the region, and returns an error message or an output,
  with the next state.
\<close>

record 'p ec2_Client =
  DescribeInstances ::
    "'p \<Rightarrow> DescribeInstancesInput \<Rightarrow> string \<Rightarrow> (string + DescribeInstancesOutput) \<times> 'p"
  DescribeRegions ::
    "'p \<Rightarrow> DescribeRegionsInput \<Rightarrow> (string + DescribeRegionsOutput) \<times> 'p"
  RunInstances ::
    "'p \<Rightarrow> RunInstancesInput \<Rightarrow> string \<Rightarrow> (string + RunInstancesOutput) \<times> 'p"

record 'p Client =
  ec2Client :: "'p ec2_Client"
  awsConfig :: Config

text \<open>Every request sent to the provider is recorded with its region and its answer.\<close>

datatype exchange =
    DescribeInstancesCall string DescribeInstancesInput "string + DescribeInstancesOutput"
  | DescribeRegionsCall DescribeRegionsInput "string + DescribeRegionsOutput"
  | RunInstancesCall string RunInstancesInput "string + RunInstancesOutput"

text \<open>
  The state that the functions change: the backing arrays of the
  \<^verbatim>\<open>[]ec2types.Filter\<close> slices (an array's address is its index in \<open>heap\<close>), the
  provider's state, and the exchanges with the provider so far.
\<close>

record 'p world =
  heap :: "Filter list list"
  provider :: 'p
  calls :: "exchange list"

definition call_DescribeInstances ::
  "'p Client \<Rightarrow> DescribeInstancesInput \<Rightarrow> string \<Rightarrow> 'p world \<Rightarrow>
   (string + DescribeInstancesOutput) \<times> 'p world" where
  "call_DescribeInstances c input regionID w =
     (case DescribeInstances (ec2Client c) (provider w) input regionID of
        (res, p') \<Rightarrow>
          (res, w\<lparr>provider := p', calls := calls w @ [DescribeInstancesCall regionID input res]\<rparr>))"

definition call_DescribeRegions ::
  "'p Client \<Rightarrow> DescribeRegionsInput \<Rightarrow> 'p world \<Rightarrow>
   (string + DescribeRegionsOutput) \<times> 'p world" where
  "call_DescribeRegions c input w =
     (case DescribeRegions (ec2Client c) (provider w) input of
        (res, p') \<Rightarrow>
          (res, w\<lparr>provider := p', calls := calls w @ [DescribeRegionsCall input res]\<rparr>))"

definition call_RunInstances ::
  "'p Client \<Rightarrow> RunInstancesInput \<Rightarrow> string \<Rightarrow> 'p world \<Rightarrow>
   (string + RunInstancesOutput) \<times> 'p world" where
  "call_RunInstances c input region w =
     (case RunInstances (ec2Client c) (provider w) input region of
        (res, p') \<Rightarrow>
          (res, w\<lparr>provider := p', calls := calls w @ [RunInstancesCall region input res]\<rparr>))"

text \<open>
  What the file uses and the repository declares elsewhere, or Go's library and runtime
  provide: the constant \<^verbatim>\<open>maxResults\<close>, the capacity that \<^verbatim>\<open>append\<close> gives a slice it
  has to reallocate (from the old capacity and the length needed),
  \<^verbatim>\<open>ScanScopeType.AsAwsScanScope\<close>, \<^verbatim>\<open>cloudinit.GenerateCloudInit\<close> and
  \<^verbatim>\<open>base64.StdEncoding.EncodeToString\<close>.
\<close>

record 'raw deps =
  maxResults :: int
  growslice_cap :: "nat \<Rightarrow> nat \<Rightarrow> nat"
  AsAwsScanScope :: "'raw \<Rightarrow> string + models_AwsScanScope"
  GenerateCloudInit :: "cloudinit_Data \<Rightarrow> string + string"
  EncodeToString :: "string \<Rightarrow> string"

section \<open>Slices of filters\<close>

text \<open>
  A Go slice is a pointer to a backing array, a length and a capacity; the \<^verbatim>\<open>nil\<close>
  slice has no array. The slice's elements are the first \<open>slice_len\<close> slots of its
  array.
\<close>

record slice =
  slice_array :: "nat option"
  slice_len :: nat
  slice_cap :: nat

definition nil_slice :: slice where
  "nil_slice = \<lparr>slice_array = None, slice_len = 0, slice_cap = 0\<rparr>"

definition zero_Filter :: Filter where
  "zero_Filter = \<lparr>Name = None, Values = []\<rparr>"

definition array_at :: "Filter list list \<Rightarrow> nat \<Rightarrow> Filter list" where
  "array_at h a = (if a < length h then h ! a else [])"

definition read_slice :: "slice \<Rightarrow> Filter list list \<Rightarrow> Filter list" where
  "read_slice s h =
     (case slice_array s of None \<Rightarrow> [] | Some a \<Rightarrow> take (slice_len s) (array_at h a))"

text \<open>
  \<^verbatim>\<open>append(s, xs...)\<close>. When the capacity suffices the new elements are written into
  the slots of \<open>s\<close>'s own array behind its length, and the result shares that array;
  otherwise a new array is allocated, of the capacity the runtime chooses, and the
  elements of \<open>s\<close> and the new ones are copied into it.
\<close>

definition append_slice ::
  "(nat \<Rightarrow> nat \<Rightarrow> nat) \<Rightarrow> slice \<Rightarrow> Filter list \<Rightarrow> Filter list list \<Rightarrow>
   slice \<times> Filter list list" where
  "append_slice grow s xs h =
     (let newLen = slice_len s + length xs
      in if newLen \<le> slice_cap s
         then (case slice_array s of
                 None \<Rightarrow> (s\<lparr>slice_len := newLen\<rparr>, h)
               | Some a \<Rightarrow>
                   (s\<lparr>slice_len := newLen\<rparr>,
                    h[a := take (slice_len s) (array_at h a) @ xs @ drop newLen (array_at h a)]))
         else (let newCap = grow (slice_cap s) newLen
               in (\<lparr>slice_array = Some (length h), slice_len = newLen, slice_cap = newCap\<rparr>,
                   h @ [read_slice s h @ xs @ replicate (newCap - newLen) zero_Filter])))"

section \<open>Scope conversion\<close>

fun convertTags_loop :: "models_Tag list \<Rightarrow> Tag list \<Rightarrow> Tag list" where
  "convertTags_loop [] ret = ret"
| "convertTags_loop (tag # rest) ret =
     convertTags_loop rest (ret @ [\<lparr>Key = models_Key tag, Val = models_Value tag\<rparr>])"

definition convertTags :: "models_Tag list option \<Rightarrow> Tag list" where
  "convertTags tags = (case tags of None \<Rightarrow> [] | Some ts \<Rightarrow> convertTags_loop ts [])"

fun convertSecurityGroups_loop ::
  "nat \<Rightarrow> models_AwsSecurityGroup list \<Rightarrow> SecurityGroup list \<Rightarrow> SecurityGroup list" where
  "convertSecurityGroups_loop i [] ret = ret"
| "convertSecurityGroups_loop i (securityGroup # rest) ret =
     convertSecurityGroups_loop (Suc i) rest (ret[i := \<lparr>sg_id = models_sg_Id securityGroup\<rparr>])"

definition convertSecurityGroups :: "models_AwsSecurityGroup list option \<Rightarrow> SecurityGroup list" where
  "convertSecurityGroups securityGroups =
     (case securityGroups of
        None \<Rightarrow> []
      | Some sgs \<Rightarrow> convertSecurityGroups_loop 0 sgs (replicate (length sgs) \<lparr>sg_id = []\<rparr>))"

fun convertVPCs_loop :: "nat \<Rightarrow> models_AwsVPC list \<Rightarrow> VPC list \<Rightarrow> VPC list" where
  "convertVPCs_loop i [] ret = ret"
| "convertVPCs_loop i (vpc # rest) ret =
     convertVPCs_loop (Suc i) rest
       (ret[i := \<lparr>vpc_id = models_vpc_Id vpc,
                  vpc_securityGroups = convertSecurityGroups (models_SecurityGroups vpc)\<rparr>])"

definition convertVPCs :: "models_AwsVPC list option \<Rightarrow> VPC list" where
  "convertVPCs vpcs =
     (case vpcs of
        None \<Rightarrow> []
      | Some vs \<Rightarrow>
          convertVPCs_loop 0 vs (replicate (length vs) \<lparr>vpc_id = [], vpc_securityGroups = []\<rparr>))"

fun convertRegions_loop :: "models_AwsRegion list \<Rightarrow> Region list \<Rightarrow> Region list" where
  "convertRegions_loop [] ret = ret"
| "convertRegions_loop (region # rest) ret =
     convertRegions_loop rest
       (ret @ [\<lparr>region_name = models_Name region, region_vpcs = convertVPCs (models_Vpcs region)\<rparr>])"

definition convertRegions :: "models_AwsRegion list option \<Rightarrow> Region list" where
  "convertRegions regions = (case regions of None \<Rightarrow> [] | Some rs \<Rightarrow> convertRegions_loop rs [])"

definition convertBool :: "bool option \<Rightarrow> bool" where
  "convertBool all = (case all of Some b \<Rightarrow> b | None \<Rightarrow> False)"

definition convertScope :: "models_AwsScanScope \<Rightarrow> ScanScope" where
  "convertScope scope =
     (let allRegions = False;
          allRegions = (case models_AllRegions scope of Some b \<Rightarrow> b | None \<Rightarrow> allRegions)
      in \<lparr>AllRegions = allRegions,
          Regions = convertRegions (models_Regions scope),
          ScanStopped = convertBool (ShouldScanStoppedInstances scope),
          TagSelector = convertTags (InstanceTagSelector scope),
          ExcludeTags = convertTags (InstanceTagExclusion scope)\<rparr>)"

section \<open>Region resolution\<close>

fun ListAllRegions_loop :: "ec2types_Region list \<Rightarrow> Region list \<Rightarrow> panic + Region list" where
  "ListAllRegions_loop [] ret = Inr ret"
| "ListAllRegions_loop (region # rest) ret =
     (case RegionName region of
        None \<Rightarrow> Inl NilDereference
      | Some n \<Rightarrow> ListAllRegions_loop rest (ret @ [\<lparr>region_name = n, region_vpcs = []\<rparr>]))"

definition ListAllRegions :: "'p Client \<Rightarrow> 'p world \<Rightarrow> Region list outcome \<times> 'p world" where
  "ListAllRegions c w =
     (let ret = []
      in case call_DescribeRegions c \<lparr>input_AllRegions = None\<rparr> w of
           (Inl err, w') \<Rightarrow> (Err (''failed to describe regions: '' @ err), w')
         | (Inr out, w') \<Rightarrow>
             (case ListAllRegions_loop (output_Regions out) ret of
                Inl p \<Rightarrow> (Panicked p, w')
              | Inr ret' \<Rightarrow> (Ok ret', w')))"

definition getRegionsToScan ::
  "'p Client \<Rightarrow> ScanScope \<Rightarrow> 'p world \<Rightarrow> Region list outcome \<times> 'p world" where
  "getRegionsToScan c scope w =
     (if AllRegions scope then ListAllRegions c w else (Ok (Regions scope), w))"

section \<open>Instance enumeration\<close>

fun getInstancesFromDescribeInstancesOutput_instances ::
  "Tag list \<Rightarrow> string \<Rightarrow> ec2types_Instance list \<Rightarrow> InstanceImpl list \<Rightarrow>
   panic + InstanceImpl list" where
  "getInstancesFromDescribeInstancesOutput_instances excludeTags regionID [] ret = Inr ret"
| "getInstancesFromDescribeInstancesOutput_instances excludeTags regionID (instance # rest) ret =
     (case hasExcludeTags excludeTags (Tags instance) of
        Inl p \<Rightarrow> Inl p
      | Inr True \<Rightarrow>
          getInstancesFromDescribeInstancesOutput_instances excludeTags regionID rest ret
      | Inr False \<Rightarrow>
          (case InstanceId instance of
             None \<Rightarrow> Inl NilDereference
           | Some i \<Rightarrow>
               getInstancesFromDescribeInstancesOutput_instances excludeTags regionID rest
                 (ret @ [\<lparr>inst_id = i, inst_region = regionID, inst_availabilityZone = []\<rparr>])))"

fun getInstancesFromDescribeInstancesOutput_reservations ::
  "Tag list \<Rightarrow> string \<Rightarrow> ec2types_Reservation list \<Rightarrow> InstanceImpl list \<Rightarrow>
   panic + InstanceImpl list" where
  "getInstancesFromDescribeInstancesOutput_reservations excludeTags regionID [] ret = Inr ret"
| "getInstancesFromDescribeInstancesOutput_reservations excludeTags regionID (reservation # rest) ret =
     (case getInstancesFromDescribeInstancesOutput_instances excludeTags regionID
             (Instances reservation) ret of
        Inl p \<Rightarrow> Inl p
      | Inr ret' \<Rightarrow>
          getInstancesFromDescribeInstancesOutput_reservations excludeTags regionID rest ret')"

definition getInstancesFromDescribeInstancesOutput ::
  "DescribeInstancesOutput \<Rightarrow> Tag list \<Rightarrow> string \<Rightarrow> panic + InstanceImpl list" where
  "getInstancesFromDescribeInstancesOutput result excludeTags regionID =
     getInstancesFromDescribeInstancesOutput_reservations excludeTags regionID
       (Reservations result) []"

text \<open>
  The pagination loop of \<^verbatim>\<open>GetInstances\<close>, \<^verbatim>\<open>for out.NextToken != nil\<close>. The provider
  may hand out a token with every page, so the loop need not end: \<open>fuel\<close> bounds the
  number of its iterations, and a loop that wants one more ends with \<^term>\<open>OutOfFuel\<close>.
  The request's filters are the elements of the slice \<open>filters\<close> when the request is
  sent.
\<close>

fun GetInstances_pages ::
  "'raw deps \<Rightarrow> nat \<Rightarrow> 'p Client \<Rightarrow> slice \<Rightarrow> Tag list \<Rightarrow> string \<Rightarrow>
   DescribeInstancesOutput \<Rightarrow> InstanceImpl list \<Rightarrow> 'p world \<Rightarrow>
   InstanceImpl list outcome \<times> 'p world" where
  "GetInstances_pages d fuel c filters excludeTags regionID out ret w =
     (case NextToken out of
        None \<Rightarrow> (Ok ret, w)
      | Some token \<Rightarrow>
          (case fuel of
             0 \<Rightarrow> (OutOfFuel, w)
           | Suc fuel' \<Rightarrow>
               (case call_DescribeInstances c
                       \<lparr>Filters = read_slice filters (heap w),
                        MaxResults = Some (maxResults d),
                        input_NextToken = Some token\<rparr> regionID w of
                  (Inl err, w') \<Rightarrow> (Err (''failed to describe instances: '' @ err), w')
                | (Inr out', w') \<Rightarrow>
                    (case getInstancesFromDescribeInstancesOutput out' excludeTags regionID of
                       Inl p \<Rightarrow> (Panicked p, w')
                     | Inr instances \<Rightarrow>
                         GetInstances_pages d fuel' c filters excludeTags regionID out'
                           (ret @ instances) w'))))"

declare GetInstances_pages.simps [simp del]

definition GetInstances ::
  "'raw deps \<Rightarrow> nat \<Rightarrow> 'p Client \<Rightarrow> slice \<Rightarrow> Tag list \<Rightarrow> string \<Rightarrow> 'p world \<Rightarrow>
   InstanceImpl list outcome \<times> 'p world" where
  "GetInstances d fuel c filters excludeTags regionID w =
     (let ret = []
      in case call_DescribeInstances c
                \<lparr>Filters = read_slice filters (heap w),
                 MaxResults = Some (maxResults d),
                 input_NextToken = None\<rparr> regionID w of
           (Inl err, w') \<Rightarrow> (Err (''failed to describe instances: '' @ err), w')
         | (Inr out, w') \<Rightarrow>
             (case getInstancesFromDescribeInstancesOutput out excludeTags regionID of
                Inl p \<Rightarrow> (Panicked p, w')
              | Inr instances \<Rightarrow>
                  GetInstances_pages d fuel c filters excludeTags regionID out
                    (ret @ instances) w'))"

section \<open>Discovery\<close>

text \<open>
  The inner loop of \<^verbatim>\<open>Discover\<close>, \<^verbatim>\<open>for _, vpc := range region.vpcs\<close>.
  \<^verbatim>\<open>vpcFilters := append(filters, createVPCFilters(vpc)...)\<close> may write into the array
  of \<open>filters\<close>; \<open>filters\<close> itself (pointer, length, capacity) stays as it is.
\<close>

fun Discover_vpcs ::
  "'raw deps \<Rightarrow> nat \<Rightarrow> 'p Client \<Rightarrow> slice \<Rightarrow> Tag list \<Rightarrow> string \<Rightarrow> VPC list \<Rightarrow>
   InstanceImpl list \<Rightarrow> 'p world \<Rightarrow> InstanceImpl list outcome \<times> 'p world" where
  "Discover_vpcs d fuel c filters excludeTags regionName [] ret w = (Ok ret, w)"
| "Discover_vpcs d fuel c filters excludeTags regionName (vpc # rest) ret w =
     (case append_slice (growslice_cap d) filters (createVPCFilters vpc) (heap w) of
        (vpcFilters, h') \<Rightarrow>
          (case GetInstances d fuel c vpcFilters excludeTags regionName (w\<lparr>heap := h'\<rparr>) of
             (Ok instances, w') \<Rightarrow>
               Discover_vpcs d fuel c filters excludeTags regionName rest (ret @ instances) w'
           | (Err err, w') \<Rightarrow> (Err (''failed to get instances: '' @ err), w')
           | (Panicked p, w') \<Rightarrow> (Panicked p, w')
           | (OutOfFuel, w') \<Rightarrow> (OutOfFuel, w')))"

text \<open>
  The outer loop, \<^verbatim>\<open>for _, region := range regions\<close>. Every query of a discovery
  runs its pagination loop under the same bound \<open>fuel\<close>.
\<close>

fun Discover_regions ::
  "'raw deps \<Rightarrow> nat \<Rightarrow> 'p Client \<Rightarrow> slice \<Rightarrow> Tag list \<Rightarrow> Region list \<Rightarrow>
   InstanceImpl list \<Rightarrow> 'p world \<Rightarrow> InstanceImpl list outcome \<times> 'p world" where
  "Discover_regions d fuel c filters excludeTags [] ret w = (Ok ret, w)"
| "Discover_regions d fuel c filters excludeTags (region # rest) ret w =
     (if length (region_vpcs region) = 0
      then (case GetInstances d fuel c filters excludeTags (region_name region) w of
              (Ok instances, w') \<Rightarrow>
                Discover_regions d fuel c filters excludeTags rest (ret @ instances) w'
            | (Err err, w') \<Rightarrow> (Err (''failed to get instances: '' @ err), w')
            | (Panicked p, w') \<Rightarrow> (Panicked p, w')
            | (OutOfFuel, w') \<Rightarrow> (OutOfFuel, w'))
      else (case Discover_vpcs d fuel c filters excludeTags (region_name region)
                   (region_vpcs region) ret w of
              (Ok ret', w') \<Rightarrow> Discover_regions d fuel c filters excludeTags rest ret' w'
            | (Err err, w') \<Rightarrow> (Err err, w')
            | (Panicked p, w') \<Rightarrow> (Panicked p, w')
            | (OutOfFuel, w') \<Rightarrow> (OutOfFuel, w')))"

text \<open>
  The base filters of \<^verbatim>\<open>Discover\<close>: \<^verbatim>\<open>filters\<close> starts as the \<^verbatim>\<open>nil\<close> slice and takes
  the tag-inclusion filters, then the instance-state filter.
\<close>

definition Discover_base_filters ::
  "'raw deps \<Rightarrow> ScanScope \<Rightarrow> Filter list list \<Rightarrow> slice \<times> Filter list list" where
  "Discover_base_filters d scope h =
     (case append_slice (growslice_cap d) nil_slice
             (createInclusionTagsFilters (TagSelector scope)) h of
        (filters, h1) \<Rightarrow>
          append_slice (growslice_cap d) filters
            (createInstanceStateFilters (ScanStopped scope)) h1)"

definition Discover ::
  "'raw deps \<Rightarrow> nat \<Rightarrow> 'p Client \<Rightarrow> 'raw \<Rightarrow> 'p world \<Rightarrow>
   InstanceImpl list outcome \<times> 'p world" where
  "Discover d fuel c scanScope w =
     (case AsAwsScanScope d scanScope of
        Inl err \<Rightarrow> (Err (''failed to convert as aws scope: '' @ err), w)
      | Inr awsScanScope \<Rightarrow>
          (let scope = convertScope awsScanScope
           in case getRegionsToScan c scope w of
                (Err err, w1) \<Rightarrow> (Err (''failed to get regions to scan: '' @ err), w1)
              | (Panicked p, w1) \<Rightarrow> (Panicked p, w1)
              | (OutOfFuel, w1) \<Rightarrow> (OutOfFuel, w1)
              | (Ok regions, w1) \<Rightarrow>
                  if length regions = 0 then (Err ''no regions to scan'', w1)
                  else (case Discover_base_filters d scope (heap w1) of
                          (filters, h) \<Rightarrow>
                            Discover_regions d fuel c filters (ExcludeTags scope) regions []
                              (w1\<lparr>heap := h\<rparr>))))"

section \<open>Provisioning\<close>

definition tagKey :: string where
  "tagKey = ''Owner''"

definition tagVal :: string where
  "tagVal = ''VMClarity''"

definition vmclarityTags :: "ec2types_Tag list" where
  "vmclarityTags = [\<lparr>tag_Key = Some tagKey, tag_Value = Some tagVal\<rparr>]"

definition nameTagKey :: string where
  "nameTagKey = ''Name''"

definition createInstanceTags :: "string \<Rightarrow> ec2types_Tag list" where
  "createInstanceTags ident =
     (let nameTagValue = ''vmclarity-scanner-'' @ ident;
          ret = [];
          ret = ret @ vmclarityTags;
          ret = ret @ [\<lparr>tag_Key = Some nameTagKey, tag_Value = Some nameTagValue\<rparr>]
      in ret)"

text \<open>
  \<^verbatim>\<open>RunScanningJob\<close>. The first definition is the value of \<^verbatim>\<open>runInstancesInput\<close> when
  \<^verbatim>\<open>RunInstances\<close> is called, built from the generated user data in the three steps of
  the source. After the launch the handle is read from \<^verbatim>\<open>out.Instances[0]\<close>: an empty
  list, or a \<^verbatim>\<open>nil\<close> id, placement or availability zone, panics.
\<close>

definition RunScanningJob_runInstancesInput ::
  "'raw deps \<Rightarrow> 'p Client \<Rightarrow> string \<Rightarrow> ScanningJobConfig \<Rightarrow> string \<Rightarrow> RunInstancesInput" where
  "RunScanningJob_runInstancesInput d c ident config userData =
     (let instanceTags = createInstanceTags ident;
          userDataBase64 = EncodeToString d userData;
          runInstancesInput =
            \<lparr>MaxCount = Some 1,
             MinCount = Some 1,
             ImageId = Some (AmiID (awsConfig c)),
             InstanceType = InstanceTypeT2Large,
             TagSpecifications =
               [\<lparr>ResourceType = ResourceTypeInstance, spec_Tags = instanceTags\<rparr>,
                \<lparr>ResourceType = ResourceTypeVolume, spec_Tags = vmclarityTags\<rparr>],
             UserData = Some userDataBase64,
             NetworkInterfaces = [],
             KeyName = None\<rparr>;
          runInstancesInput = runInstancesInput
            \<lparr>NetworkInterfaces :=
               [\<lparr>AssociatePublicIpAddress = Some False,
                 DeleteOnTermination = Some True,
                 DeviceIndex = Some 0,
                 Groups = [SecurityGroupID (awsConfig c)],
                 SubnetId = Some (SubnetID (awsConfig c))\<rparr>]\<rparr>
      in if KeyPairName config \<noteq> []
         then runInstancesInput\<lparr>KeyName := Some (KeyPairName config)\<rparr>
         else runInstancesInput)"

definition RunScanningJob ::
  "'raw deps \<Rightarrow> 'p Client \<Rightarrow> string \<Rightarrow> string \<Rightarrow> ScanningJobConfig \<Rightarrow> 'p world \<Rightarrow>
   InstanceImpl outcome \<times> 'p world" where
  "RunScanningJob d c region ident config w =
     (let cloudInitData =
            \<lparr>data_ScannerCLIConfig = ScannerCLIConfig config,
             data_ScannerImage = ScannerImage config,
             data_ServerAddress = VMClarityAddress config,
             data_ScanResultID = ScanResultID config\<rparr>
      in case GenerateCloudInit d cloudInitData of
           Inl err \<Rightarrow> (Err (''failed to generate cloud-init: '' @ err), w)
         | Inr userData \<Rightarrow>
             (case call_RunInstances c
                     (RunScanningJob_runInstancesInput d c ident config userData) region w of
                (Inl err, w') \<Rightarrow> (Err (''failed to run instances: '' @ err), w')
              | (Inr out, w') \<Rightarrow>
                  (case output_Instances out of
                     [] \<Rightarrow> (Panicked IndexOutOfRange, w')
                   | instance # _ \<Rightarrow>
                       (case InstanceId instance of
                          None \<Rightarrow> (Panicked NilDereference, w')
                        | Some i \<Rightarrow>
                            (case Placement instance of
                               None \<Rightarrow> (Panicked NilDereference, w')
                             | Some placement \<Rightarrow>
                                 (case AvailabilityZone placement of
                                    None \<Rightarrow> (Panicked NilDereference, w')
                                  | Some az \<Rightarrow>
                                      (Ok \<lparr>inst_id = i, inst_region = region,
                                           inst_availabilityZone = az\<rparr>, w')))))))"

section \<open>Vocabulary of the properties\<close>

text \<open>The exchanges with the provider between an earlier world and a later one.\<close>

definition calls_since :: "'p world \<Rightarrow> 'p world \<Rightarrow> exchange list" where
  "calls_since w w' = drop (length (calls w)) (calls w')"

text \<open>The launch requests among some exchanges, in the order they were sent.\<close>

fun launch_requests :: "exchange list \<Rightarrow> RunInstancesInput list" where
  "launch_requests [] = []"
| "launch_requests (RunInstancesCall region input res # rest) = input # launch_requests rest"
| "launch_requests (DescribeInstancesCall region input res # rest) = launch_requests rest"
| "launch_requests (DescribeRegionsCall input res # rest) = launch_requests rest"

text \<open>The tags that a launch request specifies for one kind of resource.\<close>

definition resource_tags :: "ResourceType \<Rightarrow> RunInstancesInput \<Rightarrow> ec2types_Tag list" where
  "resource_tags rt input =
     concat (map spec_Tags (filter (\<lambda>ts. ResourceType ts = rt) (TagSpecifications input)))"

text \<open>
  The full region catalog of an account, the regions disabled for it included, every
  region without a VPC restriction.
\<close>

definition full_region_catalog :: "(string \<times> bool) list \<Rightarrow> Region list" where
  "full_region_catalog catalog = map (\<lambda>r. \<lparr>region_name = fst r, region_vpcs = []\<rparr>) catalog"

text \<open>
  The provider serves the pages \<open>outs\<close>: asked for the instances of a region with the
  given filters and page size, first with the token \<open>token\<close> and then with the token of
  the page before, it answers the pages of \<open>outs\<close> one after the other, every page but
  the last with a continuation token and the last without, and is in state \<open>p'\<close>
  afterwards.
\<close>

fun pages_served ::
  "'p ec2_Client \<Rightarrow> string \<Rightarrow> Filter list \<Rightarrow> int \<Rightarrow> 'p \<Rightarrow> string option \<Rightarrow>
   DescribeInstancesOutput list \<Rightarrow> 'p \<Rightarrow> bool" where
  "pages_served api regionID fs mr p token [] p' = False"
| "pages_served api regionID fs mr p token (out # outs) p' =
     (case DescribeInstances api p
             \<lparr>Filters = fs, MaxResults = Some mr, input_NextToken = token\<rparr> regionID of
        (Inl err, p1) \<Rightarrow> False
      | (Inr out', p1) \<Rightarrow>
          out' = out \<and>
          (case NextToken out of
             None \<Rightarrow> outs = [] \<and> p' = p1
           | Some t \<Rightarrow> pages_served api regionID fs mr p1 (Some t) outs p'))"

text \<open>The exchanges of that conversation.\<close>

fun page_exchanges ::
  "string \<Rightarrow> Filter list \<Rightarrow> int \<Rightarrow> string option \<Rightarrow> DescribeInstancesOutput list \<Rightarrow>
   exchange list" where
  "page_exchanges regionID fs mr token [] = []"
| "page_exchanges regionID fs mr token (out # outs) =
     DescribeInstancesCall regionID
       \<lparr>Filters = fs, MaxResults = Some mr, input_NextToken = token\<rparr> (Inr out)
     # page_exchanges regionID fs mr (NextToken out) outs"

text \<open>
  The instances of a page, in the order of its reservations. A page is well formed when
  every instance has an id and every tag a key and a value, as in the answers of EC2.
  An instance survives when the exclusion does not apply to it.
\<close>

definition page_instances :: "DescribeInstancesOutput \<Rightarrow> ec2types_Instance list" where
  "page_instances out = concat (map Instances (Reservations out))"

definition page_ok :: "DescribeInstancesOutput \<Rightarrow> bool" where
  "page_ok out \<longleftrightarrow>
     list_all (\<lambda>i. InstanceId i \<noteq> None \<and> tags_set (Tags i)) (page_instances out)"

definition surviving :: "Tag list \<Rightarrow> string \<Rightarrow> DescribeInstancesOutput \<Rightarrow> InstanceImpl list" where
  "surviving excludeTags regionID out =
     map (\<lambda>i. \<lparr>inst_id = the (InstanceId i), inst_region = regionID,
               inst_availabilityZone = []\<rparr>)
       (filter (\<lambda>i. hasExcludeTags excludeTags (Tags i) \<noteq> Inr True) (page_instances out))"

text \<open>
  An instance query that the provider answered with an error, and the region and
  filters that an instance query was sent with.
\<close>

fun failed_query :: "exchange \<Rightarrow> bool" where
  "failed_query (DescribeInstancesCall regionID input (Inl err)) = True"
| "failed_query (DescribeInstancesCall regionID input (Inr out)) = False"
| "failed_query (DescribeRegionsCall input res) = False"
| "failed_query (RunInstancesCall region input res) = False"

fun query_of :: "exchange \<Rightarrow> (string \<times> Filter list) option" where
  "query_of (DescribeInstancesCall regionID input res) = Some (regionID, Filters input)"
| "query_of (DescribeRegionsCall input res) = None"
| "query_of (RunInstancesCall region input res) = None"

text \<open>
  Either no instance query among the exchanges failed, or the last exchange is the only
  failed instance query and the outcome is its error behind the given prefix.
\<close>

definition fail_fast :: "string \<Rightarrow> 'a outcome \<Rightarrow> exchange list \<Rightarrow> bool" where
  "fail_fast prefix r cs \<longleftrightarrow>
     list_all (\<lambda>x. \<not> failed_query x) cs \<or>
     (\<exists>cs0 regionID input err.
        cs = cs0 @ [DescribeInstancesCall regionID input (Inl err)] \<and>
        list_all (\<lambda>x. \<not> failed_query x) cs0 \<and>
        r = Err (prefix @ err))"

text \<open>
  The queries of a discovery, in order, for the base filters \<open>base\<close>: a region without
  VPCs is queried with the base filters; a region with VPCs is queried once for every
  VPC, with the base filters followed by the filters of that VPC.
\<close>

definition region_queries :: "Filter list \<Rightarrow> Region \<Rightarrow> (string \<times> Filter list) list" where
  "region_queries base region =
     (if region_vpcs region = [] then [(region_name region, base)]
      else map (\<lambda>vpc. (region_name region, base @ createVPCFilters vpc)) (region_vpcs region))"

definition scope_queries :: "Filter list \<Rightarrow> Region list \<Rightarrow> (string \<times> Filter list) list" where
  "scope_queries base regions = concat (map (region_queries base) regions)"

text \<open>
  The exchanges \<open>cs\<close> follow the queries \<open>qs\<close>: they fall into consecutive groups, one
  for each of the first queries of \<open>qs\<close> in order; no group is empty, and every exchange
  of a group is an instance query with the region and the filters of the group's query.
  When \<open>all\<close> holds there is a group for every query.
\<close>

definition follows_queries ::
  "bool \<Rightarrow> (string \<times> Filter list) list \<Rightarrow> exchange list \<Rightarrow> bool" where
  "follows_queries all qs cs \<longleftrightarrow>
     (\<exists>groups. cs = concat groups \<and> length groups \<le> length qs \<and>
        (all \<longrightarrow> length groups = length qs) \<and>
        list_all2 (\<lambda>g q. g \<noteq> [] \<and> list_all (\<lambda>x. query_of x = Some q) g)
          groups (take (length groups) qs))"

text \<open>
  A slice is well formed in a heap when its array is allocated and holds at least as
  many slots as the slice's length and capacity say; the \<^verbatim>\<open>nil\<close> slice has neither.
\<close>

definition slice_ok :: "slice \<Rightarrow> Filter list list \<Rightarrow> bool" where
  "slice_ok s h \<longleftrightarrow>
     (case slice_array s of
        None \<Rightarrow> slice_len s = 0 \<and> slice_cap s = 0
      | Some a \<Rightarrow> a < length h \<and> slice_len s \<le> length (h ! a) \<and> slice_cap s \<le> length (h ! a))"

definition is_Ok :: "'a outcome \<Rightarrow> bool" where
  "is_Ok r = (case r of Ok x \<Rightarrow> True | _ \<Rightarrow> False)"

section \<open>A provider and a configuration to run the functions on\<close>

text \<open>
  A stand-in for EC2. Its state is the region catalog of the account (each region with
  whether it is enabled for the account) and the answers it will give to the next
  \<^verbatim>\<open>DescribeInstances\<close> requests, in order. \<^verbatim>\<open>DescribeRegions\<close> follows the EC2 API:
  the regions disabled for the account are listed only when the request sets
  \<^verbatim>\<open>AllRegions\<close> to true. \<^verbatim>\<open>RunInstances\<close> launches one instance.
\<close>

record fake_ec2 =
  fake_catalog :: "(string \<times> bool) list"
  fake_pages :: "(string + DescribeInstancesOutput) list"

definition fake_DescribeInstances ::
  "fake_ec2 \<Rightarrow> DescribeInstancesInput \<Rightarrow> string \<Rightarrow>
   (string + DescribeInstancesOutput) \<times> fake_ec2" where
  "fake_DescribeInstances p input regionID =
     (case fake_pages p of
        [] \<Rightarrow> (Inl ''RequestLimitExceeded'', p)
      | res # rest \<Rightarrow> (res, p\<lparr>fake_pages := rest\<rparr>))"

definition fake_DescribeRegions ::
  "fake_ec2 \<Rightarrow> DescribeRegionsInput \<Rightarrow> (string + DescribeRegionsOutput) \<times> fake_ec2" where
  "fake_DescribeRegions p input =
     (Inr \<lparr>output_Regions =
             map (\<lambda>r. \<lparr>RegionName = Some (fst r)\<rparr>)
               (filter (\<lambda>r. snd r \<or> input_AllRegions input = Some True) (fake_catalog p))\<rparr>,
      p)"

definition fake_RunInstances ::
  "fake_ec2 \<Rightarrow> RunInstancesInput \<Rightarrow> string \<Rightarrow> (string + RunInstancesOutput) \<times> fake_ec2" where
  "fake_RunInstances p input region =
     (Inr \<lparr>output_Instances =
             [\<lparr>InstanceId = Some ''i-0f00'', Tags = [],
               Placement = Some \<lparr>AvailabilityZone = Some (region @ ''a'')\<rparr>\<rparr>]\<rparr>,
      p)"

definition fake_Client :: "fake_ec2 Client" where
  "fake_Client =
     \<lparr>ec2Client =
        \<lparr>DescribeInstances = fake_DescribeInstances,
         DescribeRegions = fake_DescribeRegions,
         RunInstances = fake_RunInstances\<rparr>,
      awsConfig = \<lparr>AmiID = ''ami-1'', SecurityGroupID = ''sg-scanner'', SubnetID = ''subnet-1''\<rparr>\<rparr>"

definition fake_world :: "(string \<times> bool) list \<Rightarrow> (string + DescribeInstancesOutput) list \<Rightarrow>
    fake_ec2 world" where
  "fake_world catalog pages =
     \<lparr>heap = [], provider = \<lparr>fake_catalog = catalog, fake_pages = pages\<rparr>, calls = []\<rparr>"

text \<open>
  The capacity that Go's runtime computes for a slice that has to grow (\<^verbatim>\<open>growslice\<close> in
  \<^verbatim>\<open>runtime/slice.go\<close>, Go 1.18 and later; machine integers do not overflow at these
  sizes): the length needed when that is more than twice the old capacity, twice the old
  capacity below 256 elements, and steps of a quarter plus 192 above. The allocator then
  rounds the array up to one of its size classes; for arrays of 2, 4 or 8 filters (of 32
  or of 40 bytes each) that changes nothing.
\<close>

function nextslicecap_loop :: "nat \<Rightarrow> nat \<Rightarrow> nat" where
  "nextslicecap_loop newcap newLen =
     (if newcap < newLen
      then nextslicecap_loop (newcap + (newcap + 3 * 256) div 4) newLen
      else newcap)"
  by pat_completeness auto
termination
  by (relation "measure (\<lambda>(newcap, newLen). newLen - newcap)") auto

definition nextslicecap :: "nat \<Rightarrow> nat \<Rightarrow> nat" where
  "nextslicecap newLen oldCap =
     (let newcap = oldCap;
          doublecap = newcap + newcap
      in if newLen > doublecap then newLen
         else if oldCap < 256 then doublecap
         else nextslicecap_loop newcap newLen)"

text \<open>
  Stand-ins for what the repository takes from elsewhere: the scope arrives already
  decoded, the cloud-init text is a line naming the scan result, and the encoding of the
  user data is left as the identity (no property depends on it).
\<close>

definition example_deps :: "models_AwsScanScope deps" where
  "example_deps =
     \<lparr>maxResults = 50,
      growslice_cap = (\<lambda>oldCap newLen. nextslicecap newLen oldCap),
      AsAwsScanScope = Inr,
      GenerateCloudInit = (\<lambda>data. Inr (''#cloud-config scan '' @ data_ScanResultID data)),
      EncodeToString = (\<lambda>s. s)\<rparr>"

text \<open>
  Three pages of instances, the first two with a continuation token, and an exclusion
  list.
\<close>

definition example_instance :: "string \<Rightarrow> (string \<times> string) list \<Rightarrow> ec2types_Instance" where
  "example_instance ident tags =
     \<lparr>InstanceId = Some ident,
      Tags = map (\<lambda>t. \<lparr>tag_Key = Some (fst t), tag_Value = Some (snd t)\<rparr>) tags,
      Placement = None\<rparr>"

definition example_pages :: "DescribeInstancesOutput list" where
  "example_pages =
     [\<lparr>Reservations =
         [\<lparr>Instances = [example_instance ''i-1'' [(''env'', ''prod'')],
                        example_instance ''i-2'' [(''env'', ''dev'')]]\<rparr>],
       NextToken = Some ''t1''\<rparr>,
      \<lparr>Reservations = [\<lparr>Instances = [example_instance ''i-3'' []]\<rparr>],
       NextToken = Some ''t2''\<rparr>,
      \<lparr>Reservations =
         [\<lparr>Instances = [example_instance ''i-4'' [(''env'', ''prod''), (''team'', ''sec'')]]\<rparr>,
          \<lparr>Instances = [example_instance ''i-5'' [(''team'', ''sec'')]]\<rparr>],
       NextToken = None\<rparr>]"

definition example_excludeTags :: "Tag list" where
  "example_excludeTags = [\<lparr>Key = ''env'', Val = ''prod''\<rparr>]"

text \<open>
  A scope with two selected tags and two regions: the first with three VPCs, of which
  only the second names a security group, the second without VPCs. A page without
  instances.
\<close>

definition example_AwsScanScope :: models_AwsScanScope where
  "example_AwsScanScope =
     \<lparr>models_AllRegions = None,
      models_Regions = Some
        [\<lparr>models_Name = ''us-east-1'',
          models_Vpcs = Some
            [\<lparr>models_vpc_Id = ''vpc-1'', models_SecurityGroups = None\<rparr>,
             \<lparr>models_vpc_Id = ''vpc-2'',
              models_SecurityGroups = Some [\<lparr>models_sg_Id = ''sg-1''\<rparr>]\<rparr>,
             \<lparr>models_vpc_Id = ''vpc-3'', models_SecurityGroups = None\<rparr>]\<rparr>,
         \<lparr>models_Name = ''eu-west-1'', models_Vpcs = None\<rparr>],
      ShouldScanStoppedInstances = None,
      InstanceTagSelector = Some
        [\<lparr>models_Key = ''env'', models_Value = ''prod''\<rparr>,
         \<lparr>models_Key = ''team'', models_Value = ''sec''\<rparr>],
      InstanceTagExclusion = None\<rparr>"

definition example_regions :: "Region list" where
  "example_regions =
     [\<lparr>region_name = ''us-east-1'',
       region_vpcs =
         [\<lparr>vpc_id = ''vpc-1'', vpc_securityGroups = []\<rparr>,
          \<lparr>vpc_id = ''vpc-2'', vpc_securityGroups = [\<lparr>sg_id = ''sg-1''\<rparr>]\<rparr>,
          \<lparr>vpc_id = ''vpc-3'', vpc_securityGroups = []\<rparr>]\<rparr>,
      \<lparr>region_name = ''eu-west-1'', region_vpcs = []\<rparr>]"

definition example_base :: "Filter list" where
  "example_base =
     [\<lparr>Name = Some ''tag:env'', Values = [''prod'']\<rparr>,
      \<lparr>Name = Some ''tag:team'', Values = [''sec'']\<rparr>,
      \<lparr>Name = Some ''instance-state-name'', Values = [''running'']\<rparr>]"

definition empty_page :: DescribeInstancesOutput where
  "empty_page = \<lparr>Reservations = [], NextToken = None\<rparr>"

text \<open>
  The base slice that \<^verbatim>\<open>Discover\<close> builds for this scope on an empty heap, and the slice
  of the first VPC with the heap after its \<^verbatim>\<open>append\<close>.
\<close>

definition example_filters :: "slice \<times> Filter list list" where
  "example_filters = Discover_base_filters example_deps (convertScope example_AwsScanScope) []"

definition example_vpcFilters :: "slice \<times> Filter list list" where
  "example_vpcFilters =
     append_slice (growslice_cap example_deps) (fst example_filters)
       (createVPCFilters \<lparr>vpc_id = ''vpc-1'', vpc_securityGroups = []\<rparr>) (snd example_filters)"

text \<open>
  A provider that will serve the three pages to the first query and an empty page to
  each of the next three.
\<close>

definition example_world :: "fake_ec2 world" where
  "example_world =
     fake_world [] (map Inr example_pages @ [Inr empty_page, Inr empty_page, Inr empty_page])"

definition example_ScanningJobConfig :: "string \<Rightarrow> ScanningJobConfig" where
  "example_ScanningJobConfig keyPairName =
     \<lparr>ScannerImage = ''scanner:latest'', ScannerCLIConfig = ''cfg'',
      VMClarityAddress = ''10.0.0.1:8888'', ScanResultID = ''r-1'', KeyPairName = keyPairName\<rparr>"

section \<open>Properties of the filter compilation\<close>

lemma createInclusionTagsFilters_loop_map:
  "createInclusionTagsFilters_loop tags filters =
     filters @ map (\<lambda>tag. \<lparr>Name = Some (''tag:'' @ Key tag), Values = [Val tag]\<rparr>) tags"
  by (induction tags arbitrary: filters) simp_all

text \<open>
  C6. The tag-inclusion filters are, in the order of the selector, one filter per tag,
  named \<open>tag:\<close> followed by the tag's key, whose values are the one-element list of the
  tag's value; there is no other filter.
\<close>

theorem createInclusionTagsFilters_one_per_tag:
  "createInclusionTagsFilters tags =
     map (\<lambda>tag. \<lparr>Name = Some (''tag:'' @ Key tag), Values = [Val tag]\<rparr>) tags"
  by (simp add: createInclusionTagsFilters_def createInclusionTagsFilters_loop_map)

text \<open>
  C7. The instance-state compilation yields exactly one filter, named
  \<open>instance-state-name\<close>; its values are \<open>running\<close> alone when stopped instances are not
  scanned, and \<open>running\<close>, \<open>stopped\<close> when they are, so no other state occurs.
\<close>

theorem createInstanceStateFilters_states:
  "createInstanceStateFilters scanStopped =
     [\<lparr>Name = Some ''instance-state-name'',
       Values = (if scanStopped then [''running'', ''stopped''] else [''running''])\<rparr>]"
  by (simp add: createInstanceStateFilters_def instanceStateFilterName_def)

lemma getVPCSecurityGroupsIDs_loop_map:
  "i + length sgl = length sgs \<Longrightarrow>
   getVPCSecurityGroupsIDs_loop i sgl sgs = take i sgs @ map sg_id sgl"
proof (induction sgl arbitrary: i sgs)
  case Nil
  then show ?case by simp
next
  case (Cons sg rest)
  from Cons.prems have len: "i < length sgs" by simp
  from Cons.prems have "Suc i + length rest = length (sgs[i := sg_id sg])" by simp
  then have "getVPCSecurityGroupsIDs_loop (Suc i) rest (sgs[i := sg_id sg]) =
      take (Suc i) (sgs[i := sg_id sg]) @ map sg_id rest"
    by (rule Cons.IH)
  moreover have "take (Suc i) (sgs[i := sg_id sg]) = take i sgs @ [sg_id sg]"
    using len by (simp add: take_Suc_conv_app_nth)
  ultimately show ?case by simp
qed

lemma getVPCSecurityGroupsIDs_map:
  "getVPCSecurityGroupsIDs vpc = map sg_id (vpc_securityGroups vpc)"
  by (simp add: getVPCSecurityGroupsIDs_def getVPCSecurityGroupsIDs_loop_map)

text \<open>
  C8. The filters of a VPC are the \<open>vpc-id\<close> filter with the VPC's id as its single value,
  followed, exactly when the VPC has at least one security group, by the
  \<open>instance.group-id\<close> filter whose values are the ids of all its security groups, in
  order.
\<close>

theorem createVPCFilters_shape:
  "createVPCFilters vpc =
     (if vpc_securityGroups vpc = []
      then [\<lparr>Name = Some ''vpc-id'', Values = [vpc_id vpc]\<rparr>]
      else [\<lparr>Name = Some ''vpc-id'', Values = [vpc_id vpc]\<rparr>,
            \<lparr>Name = Some ''instance.group-id'',
             Values = map sg_id (vpc_securityGroups vpc)\<rparr>])"
  by (simp add: createVPCFilters_def getVPCSecurityGroupsIDs_map
      vpcIDFilterName_def sgIDFilterName_def)

section \<open>Properties of the tag exclusion\<close>

lemma instanceTagsMap_fill_lookup:
  "tags_set instanceTags \<Longrightarrow>
   \<exists>m'. instanceTagsMap_fill instanceTags m = Inr m' \<and>
        (\<forall>k. m' k = (case last_value_of instanceTags k of Some v \<Rightarrow> Some v | None \<Rightarrow> m k))"
proof (induction instanceTags arbitrary: m)
  case Nil
  then show ?case by simp
next
  case (Cons tag rest)
  from Cons.prems obtain k v where kv: "tag_Key tag = Some k" "tag_Value tag = Some v"
    and rest: "tags_set rest"
    by (auto simp: tags_set_def)
  from Cons.IH [OF rest, of "m(k \<mapsto> v)"] obtain m' where
    m': "instanceTagsMap_fill rest (m(k \<mapsto> v)) = Inr m'"
    "\<And>j. m' j = (case last_value_of rest j of Some w \<Rightarrow> Some w | None \<Rightarrow> (m(k \<mapsto> v)) j)"
    by blast
  have "instanceTagsMap_fill (tag # rest) m = Inr m'"
    using kv m'(1) by simp
  moreover have "m' j = (case last_value_of (tag # rest) j of Some w \<Rightarrow> Some w | None \<Rightarrow> m j)" for j
    using kv m'(2) [of j] by (cases "last_value_of rest j") auto
  ultimately show ?case by blast
qed

lemma excludeTags_all_found_iff:
  "excludeTags_all_found excludeTags m \<longleftrightarrow> (\<forall>t \<in> set excludeTags. m (Key t) = Some (Val t))"
  by (induction excludeTags) (auto split: option.splits)

lemma last_value_of_Some_key:
  "last_value_of instanceTags k = Some v \<Longrightarrow> Some k \<in> tag_Key ` set instanceTags"
  by (induction instanceTags) (auto split: option.splits if_splits)

lemma last_value_of_member:
  "last_value_of instanceTags k = Some v \<Longrightarrow>
   \<lparr>tag_Key = Some k, tag_Value = Some v\<rparr> \<in> set instanceTags"
  by (induction instanceTags) (auto split: option.splits if_splits)

lemma last_value_of_distinct:
  "distinct (map tag_Key instanceTags) \<Longrightarrow>
   \<lparr>tag_Key = Some k, tag_Value = Some v\<rparr> \<in> set instanceTags \<Longrightarrow>
   last_value_of instanceTags k = Some v"
proof (induction instanceTags)
  case Nil
  then show ?case by simp
next
  case (Cons tag rest)
  show ?case
  proof (cases "\<lparr>tag_Key = Some k, tag_Value = Some v\<rparr> \<in> set rest")
    case True
    with Cons show ?thesis by simp
  next
    case False
    with Cons.prems have tag: "tag = \<lparr>tag_Key = Some k, tag_Value = Some v\<rparr>" by simp
    with Cons.prems have "Some k \<notin> tag_Key ` set rest" by simp
    then have "last_value_of rest k = None"
      using last_value_of_Some_key [of rest k] by (cases "last_value_of rest k") auto
    with tag show ?thesis by simp
  qed
qed

lemma instanceTagsMap_fill_empty:
  assumes "tags_set instanceTags"
  shows "instanceTagsMap_fill instanceTags Map.empty = Inr (last_value_of instanceTags)"
proof -
  from instanceTagsMap_fill_lookup [OF assms, of Map.empty] obtain m' where
    fill: "instanceTagsMap_fill instanceTags Map.empty = Inr m'" and
    look: "\<forall>k. m' k = (case last_value_of instanceTags k of Some v \<Rightarrow> Some v | None \<Rightarrow> None)"
    by blast
  have "m' k = last_value_of instanceTags k" for k
    using look by (cases "last_value_of instanceTags k") simp_all
  then have "m' = last_value_of instanceTags" by (rule ext)
  with fill show ?thesis by simp
qed

lemma all_pairs_last_value:
  assumes "distinct (map tag_Key instanceTags)"
  shows "(\<forall>t \<in> set excludeTags. last_value_of instanceTags (Key t) = Some (Val t)) \<longleftrightarrow>
        list_all (\<lambda>t. \<lparr>tag_Key = Some (Key t), tag_Value = Some (Val t)\<rparr> \<in> set instanceTags) excludeTags"
  unfolding list_all_iff
  using last_value_of_distinct [OF assms] last_value_of_member [of instanceTags]
  by blast

text \<open>
  What the code does on any tag list whose keys and values are set: it compares every
  excluded pair with the last instance tag of that key.
\<close>

lemma hasExcludeTags_last_tag:
  assumes "tags_set instanceTags"
  shows "hasExcludeTags excludeTags instanceTags =
           Inr (excludeTags \<noteq> [] \<and> instanceTags \<noteq> [] \<and>
                (\<forall>t \<in> set excludeTags. last_value_of instanceTags (Key t) = Some (Val t)))"
  by (simp add: hasExcludeTags_def instanceTagsMap_fill_empty [OF assms] excludeTags_all_found_iff)

text \<open>
  C2. For the tags of an instance as EC2 returns them (every key and value set, no key
  twice), \<^verbatim>\<open>hasExcludeTags\<close> returns true if and only if the exclusion list is not
  empty, the instance has a tag, and every excluded pair is among the instance's tags
  with exactly its value. In particular an empty exclusion list excludes nothing and an
  instance without tags is never excluded, whatever the other argument is.
\<close>

theorem hasExcludeTags_rule:
  assumes set: "tags_set instanceTags"
    and keys: "distinct (map tag_Key instanceTags)"
  shows "hasExcludeTags excludeTags instanceTags =
           Inr (excluded_by_rule excludeTags instanceTags) \<and>
         hasExcludeTags [] instanceTags = Inr False \<and>
         hasExcludeTags excludeTags [] = Inr False"
proof (intro conjI)
  show "hasExcludeTags excludeTags instanceTags =
          Inr (excluded_by_rule excludeTags instanceTags)"
    unfolding hasExcludeTags_last_tag [OF set] excluded_by_rule_def
      all_pairs_last_value [OF keys] ..
next
  show "hasExcludeTags [] instanceTags = Inr False"
    by (simp add: hasExcludeTags_def)
next
  show "hasExcludeTags excludeTags [] = Inr False"
    by (simp add: hasExcludeTags_def)
qed

theorem hasExcludeTags_rule_witness:
  "tags_set [\<lparr>tag_Key = Some ''env'', tag_Value = Some ''prod''\<rparr>,
             \<lparr>tag_Key = Some ''team'', tag_Value = Some ''sec''\<rparr>] \<and>
   distinct (map tag_Key [\<lparr>tag_Key = Some ''env'', tag_Value = Some ''prod''\<rparr>,
                          \<lparr>tag_Key = Some ''team'', tag_Value = Some ''sec''\<rparr>]) \<and>
   hasExcludeTags [\<lparr>Key = ''env'', Val = ''prod''\<rparr>]
     [\<lparr>tag_Key = Some ''env'', tag_Value = Some ''prod''\<rparr>,
      \<lparr>tag_Key = Some ''team'', tag_Value = Some ''sec''\<rparr>] = Inr True \<and>
   hasExcludeTags [\<lparr>Key = ''env'', Val = ''prod''\<rparr>, \<lparr>Key = ''team'', Val = ''ops''\<rparr>]
     [\<lparr>tag_Key = Some ''env'', tag_Value = Some ''prod''\<rparr>,
      \<lparr>tag_Key = Some ''team'', tag_Value = Some ''sec''\<rparr>] = Inr False"
proof -
  let ?tags = "[\<lparr>tag_Key = Some ''env'', tag_Value = Some ''prod''\<rparr>,
                \<lparr>tag_Key = Some ''team'', tag_Value = Some ''sec''\<rparr>]"
  have h: "tags_set ?tags" by (simp add: tags_set_def)
  have d: "distinct (map tag_Key ?tags)" by simp
  show ?thesis
    using h d
      hasExcludeTags_rule [OF h d, of "[\<lparr>Key = ''env'', Val = ''prod''\<rparr>]"]
      hasExcludeTags_rule [OF h d,
        of "[\<lparr>Key = ''env'', Val = ''prod''\<rparr>, \<lparr>Key = ''team'', Val = ''ops''\<rparr>]"]
    by (simp add: excluded_by_rule_def)
qed

section \<open>Properties of the provisioning\<close>

lemma calls_call_RunInstances:
  "calls (snd (call_RunInstances c input region w)) =
     calls w @ [RunInstancesCall region input
                  (fst (RunInstances (ec2Client c) (provider w) input region))]"
  by (simp add: call_RunInstances_def split: prod.splits)

lemma RunScanningJob_world:
  "snd (RunScanningJob d c region ident config w) =
     (case GenerateCloudInit d
             \<lparr>data_ScannerCLIConfig = ScannerCLIConfig config,
              data_ScannerImage = ScannerImage config,
              data_ServerAddress = VMClarityAddress config,
              data_ScanResultID = ScanResultID config\<rparr> of
        Inl err \<Rightarrow> w
      | Inr userData \<Rightarrow>
          snd (call_RunInstances c
                 (RunScanningJob_runInstancesInput d c ident config userData) region w))"
  by (simp add: RunScanningJob_def
      split: sum.splits prod.splits list.splits option.splits)

lemma RunScanningJob_requests:
  "launch_requests (calls_since w (snd (RunScanningJob d c region ident config w))) =
     (case GenerateCloudInit d
             \<lparr>data_ScannerCLIConfig = ScannerCLIConfig config,
              data_ScannerImage = ScannerImage config,
              data_ServerAddress = VMClarityAddress config,
              data_ScanResultID = ScanResultID config\<rparr> of
        Inl err \<Rightarrow> []
      | Inr userData \<Rightarrow> [RunScanningJob_runInstancesInput d c ident config userData])"
  by (simp add: RunScanningJob_world calls_call_RunInstances calls_since_def
      split: sum.splits)

lemma resource_tags_runInstancesInput:
  "resource_tags ResourceTypeInstance (RunScanningJob_runInstancesInput d c ident config userData) =
     createInstanceTags ident"
  "resource_tags ResourceTypeVolume (RunScanningJob_runInstancesInput d c ident config userData) =
     vmclarityTags"
  by (simp_all add: resource_tags_def RunScanningJob_runInstancesInput_def Let_def)

lemma KeyName_runInstancesInput:
  "KeyName (RunScanningJob_runInstancesInput d c ident config userData) =
     (if KeyPairName config = [] then None else Some (KeyPairName config))"
  by (simp add: RunScanningJob_runInstancesInput_def Let_def)

text \<open>
  C9. \<^verbatim>\<open>RunScanningJob\<close> sends no launch request when the cloud-init generation fails, and
  otherwise exactly one; that request has no key name when \<open>KeyPairName\<close> is the empty
  string and carries exactly \<open>KeyPairName\<close> otherwise. Every launch request it sends
  has the tag \<open>Owner = VMClarity\<close> among the tags of the instance and among the tags of
  the volume.
\<close>

theorem RunScanningJob_key_pair:
  "map KeyName (launch_requests (calls_since w (snd (RunScanningJob d c region ident config w)))) =
     (case GenerateCloudInit d
             \<lparr>data_ScannerCLIConfig = ScannerCLIConfig config,
              data_ScannerImage = ScannerImage config,
              data_ServerAddress = VMClarityAddress config,
              data_ScanResultID = ScanResultID config\<rparr> of
        Inl err \<Rightarrow> []
      | Inr userData \<Rightarrow>
          [if KeyPairName config = [] then None else Some (KeyPairName config)]) \<and>
   list_all (\<lambda>input.
       \<lparr>tag_Key = Some ''Owner'', tag_Value = Some ''VMClarity''\<rparr>
         \<in> set (resource_tags ResourceTypeInstance input) \<and>
       \<lparr>tag_Key = Some ''Owner'', tag_Value = Some ''VMClarity''\<rparr>
         \<in> set (resource_tags ResourceTypeVolume input))
     (launch_requests (calls_since w (snd (RunScanningJob d c region ident config w))))"
  by (simp add: RunScanningJob_requests resource_tags_runInstancesInput
      KeyName_runInstancesInput createInstanceTags_def vmclarityTags_def tagKey_def tagVal_def
      split: sum.splits)

theorem RunScanningJob_key_pair_witness:
  "map KeyName (launch_requests (calls_since (fake_world [] [])
      (snd (RunScanningJob example_deps fake_Client ''us-east-1'' ''i-1''
             (example_ScanningJobConfig ''k1'') (fake_world [] []))))) = [Some ''k1''] \<and>
   map KeyName (launch_requests (calls_since (fake_world [] [])
      (snd (RunScanningJob example_deps fake_Client ''us-east-1'' ''i-1''
             (example_ScanningJobConfig []) (fake_world [] []))))) = [None]"
  using RunScanningJob_key_pair [where d = example_deps and c = fake_Client
      and region = "''us-east-1''" and ident = "''i-1''"
      and config = "example_ScanningJobConfig ''k1''" and w = "fake_world [] []"]
    RunScanningJob_key_pair [where d = example_deps and c = fake_Client
      and region = "''us-east-1''" and ident = "''i-1''"
      and config = "example_ScanningJobConfig []" and w = "fake_world [] []"]
  by (simp add: example_deps_def example_ScanningJobConfig_def)

text \<open>
  C10. The launch request of \<^verbatim>\<open>RunScanningJob\<close> (there is one unless the cloud-init
  generation fails) specifies tags for exactly two resources: for the instance the tags
  \<open>Owner = VMClarity\<close> and \<open>Name = vmclarity-scanner-\<close> followed by the target id, and for
  the volume the tag \<open>Owner = VMClarity\<close>; this for every region, target id, job
  configuration, client and state of the provider.
\<close>

theorem RunScanningJob_tags:
  "map TagSpecifications
     (launch_requests (calls_since w (snd (RunScanningJob d c region ident config w)))) =
     (case GenerateCloudInit d
             \<lparr>data_ScannerCLIConfig = ScannerCLIConfig config,
              data_ScannerImage = ScannerImage config,
              data_ServerAddress = VMClarityAddress config,
              data_ScanResultID = ScanResultID config\<rparr> of
        Inl err \<Rightarrow> []
      | Inr userData \<Rightarrow>
          [[\<lparr>ResourceType = ResourceTypeInstance,
             spec_Tags = [\<lparr>tag_Key = Some ''Owner'', tag_Value = Some ''VMClarity''\<rparr>,
                          \<lparr>tag_Key = Some ''Name'',
                           tag_Value = Some (''vmclarity-scanner-'' @ ident)\<rparr>]\<rparr>,
            \<lparr>ResourceType = ResourceTypeVolume,
             spec_Tags = [\<lparr>tag_Key = Some ''Owner'', tag_Value = Some ''VMClarity''\<rparr>]\<rparr>]])"
  by (simp add: RunScanningJob_requests RunScanningJob_runInstancesInput_def Let_def
      createInstanceTags_def vmclarityTags_def tagKey_def tagVal_def nameTagKey_def
      split: sum.splits)

theorem RunScanningJob_tags_witness:
  "map TagSpecifications (launch_requests (calls_since (fake_world [] [])
      (snd (RunScanningJob example_deps fake_Client ''eu-west-1'' ''i-42''
             (example_ScanningJobConfig []) (fake_world [] []))))) =
     [[\<lparr>ResourceType = ResourceTypeInstance,
        spec_Tags = [\<lparr>tag_Key = Some ''Owner'', tag_Value = Some ''VMClarity''\<rparr>,
                     \<lparr>tag_Key = Some ''Name'', tag_Value = Some ''vmclarity-scanner-i-42''\<rparr>]\<rparr>,
       \<lparr>ResourceType = ResourceTypeVolume,
        spec_Tags = [\<lparr>tag_Key = Some ''Owner'', tag_Value = Some ''VMClarity''\<rparr>]\<rparr>]]"
  using RunScanningJob_tags [where d = example_deps and c = fake_Client
      and region = "''eu-west-1''" and ident = "''i-42''"
      and config = "example_ScanningJobConfig []" and w = "fake_world [] []"]
  by (simp add: example_deps_def example_ScanningJobConfig_def)

section \<open>Properties of the region resolution\<close>

lemma ListAllRegions_loop_named:
  "ListAllRegions_loop (map (\<lambda>n. \<lparr>RegionName = Some n\<rparr>) names) ret =
     Inr (ret @ map (\<lambda>n. \<lparr>region_name = n, region_vpcs = []\<rparr>) names)"
  by (induction names arbitrary: ret) simp_all

text \<open>
  C4, as the code has it. When the scope does not ask for all regions, the scope's own
  region list is returned unchanged and the provider is not contacted. When it does, the
  provider is asked once, by a \<^verbatim>\<open>DescribeRegions\<close> request that leaves \<^verbatim>\<open>AllRegions\<close>
  unset, and the regions it answers are returned in its order, each without VPCs.
\<close>

theorem getRegionsToScan_resolution:
  "(\<not> AllRegions scope \<longrightarrow> getRegionsToScan c scope w = (Ok (Regions scope), w)) \<and>
   (AllRegions scope \<longrightarrow>
      DescribeRegions (ec2Client c) (provider w) \<lparr>input_AllRegions = None\<rparr> =
        (Inr \<lparr>output_Regions = map (\<lambda>n. \<lparr>RegionName = Some n\<rparr>) names\<rparr>, p') \<longrightarrow>
      getRegionsToScan c scope w =
        (Ok (map (\<lambda>n. \<lparr>region_name = n, region_vpcs = []\<rparr>) names),
         w\<lparr>provider := p',
           calls := calls w @
             [DescribeRegionsCall \<lparr>input_AllRegions = None\<rparr>
                (Inr \<lparr>output_Regions = map (\<lambda>n. \<lparr>RegionName = Some n\<rparr>) names\<rparr>)]\<rparr>))"
  by (simp add: getRegionsToScan_def ListAllRegions_def call_DescribeRegions_def
      ListAllRegions_loop_named)

theorem getRegionsToScan_resolution_witness:
  "getRegionsToScan fake_Client
          \<lparr>AllRegions = True, Regions = [], ScanStopped = False, TagSelector = [],
           ExcludeTags = []\<rparr>
          (fake_world [(''us-east-1'', True), (''af-south-1'', False)] []) =
   (Ok [\<lparr>region_name = ''us-east-1'', region_vpcs = []\<rparr>],
     (fake_world [(''us-east-1'', True), (''af-south-1'', False)] [])
       \<lparr>calls := [DescribeRegionsCall \<lparr>input_AllRegions = None\<rparr>
                (Inr \<lparr>output_Regions = [\<lparr>RegionName = Some ''us-east-1''\<rparr>]\<rparr>)]\<rparr>) \<and>
   getRegionsToScan fake_Client
          \<lparr>AllRegions = False, Regions = [\<lparr>region_name = ''eu-west-1'', region_vpcs = []\<rparr>],
           ScanStopped = False, TagSelector = [], ExcludeTags = []\<rparr>
          (fake_world [(''us-east-1'', True), (''af-south-1'', False)] []) =
   (Ok [\<lparr>region_name = ''eu-west-1'', region_vpcs = []\<rparr>],
    fake_world [(''us-east-1'', True), (''af-south-1'', False)] [])"
  using getRegionsToScan_resolution [where c = fake_Client
      and scope = "\<lparr>AllRegions = True, Regions = [], ScanStopped = False, TagSelector = [],
           ExcludeTags = []\<rparr>"
      and w = "fake_world [(''us-east-1'', True), (''af-south-1'', False)] []"
      and names = "[''us-east-1'']"
      and p' = "\<lparr>fake_catalog = [(''us-east-1'', True), (''af-south-1'', False)], fake_pages = []\<rparr>"]
    getRegionsToScan_resolution [where c = fake_Client
      and scope = "\<lparr>AllRegions = False, Regions = [\<lparr>region_name = ''eu-west-1'', region_vpcs = []\<rparr>],
           ScanStopped = False, TagSelector = [], ExcludeTags = []\<rparr>"
      and w = "fake_world [(''us-east-1'', True), (''af-south-1'', False)] []"]
  by (simp add: fake_Client_def fake_world_def fake_DescribeRegions_def)

text \<open>
  C4 as stated fails for an account with a disabled region: the request does not ask
  for the disabled regions, so the provider lists the enabled ones only, and the
  resolved list is not the full catalog.
\<close>

theorem getRegionsToScan_disabled_region_counterexample:
  "fst (getRegionsToScan fake_Client
          \<lparr>AllRegions = True, Regions = [], ScanStopped = False, TagSelector = [],
           ExcludeTags = []\<rparr>
          (fake_world [(''us-east-1'', True), (''af-south-1'', False)] [])) =
     Ok [\<lparr>region_name = ''us-east-1'', region_vpcs = []\<rparr>] \<and>
   full_region_catalog [(''us-east-1'', True), (''af-south-1'', False)] =
     [\<lparr>region_name = ''us-east-1'', region_vpcs = []\<rparr>,
      \<lparr>region_name = ''af-south-1'', region_vpcs = []\<rparr>] \<and>
   fst (getRegionsToScan fake_Client
          \<lparr>AllRegions = True, Regions = [], ScanStopped = False, TagSelector = [],
           ExcludeTags = []\<rparr>
          (fake_world [(''us-east-1'', True), (''af-south-1'', False)] [])) \<noteq>
     Ok (full_region_catalog [(''us-east-1'', True), (''af-south-1'', False)])"
  by (simp add: getRegionsToScan_def ListAllRegions_def call_DescribeRegions_def
      fake_Client_def fake_world_def fake_DescribeRegions_def full_region_catalog_def)

section \<open>Properties of the instance enumeration\<close>

lemma hasExcludeTags_no_panic:
  assumes "tags_set instanceTags"
  shows "\<exists>b. hasExcludeTags excludeTags instanceTags = Inr b"
  unfolding hasExcludeTags_def instanceTagsMap_fill_empty [OF assms]
  by (cases "length excludeTags = 0"; cases "length instanceTags = 0") auto

lemma getInstances_instances_surviving:
  "list_all (\<lambda>i. InstanceId i \<noteq> None \<and> tags_set (Tags i)) instances \<Longrightarrow>
   getInstancesFromDescribeInstancesOutput_instances excludeTags regionID instances ret =
     Inr (ret @ map (\<lambda>i. \<lparr>inst_id = the (InstanceId i), inst_region = regionID,
                          inst_availabilityZone = []\<rparr>)
                  (filter (\<lambda>i. hasExcludeTags excludeTags (Tags i) \<noteq> Inr True) instances))"
proof (induction instances arbitrary: ret)
  case Nil
  then show ?case by simp
next
  case (Cons inst rest)
  from Cons.prems have rest: "list_all (\<lambda>i. InstanceId i \<noteq> None \<and> tags_set (Tags i)) rest"
    and ident: "InstanceId inst \<noteq> None" and tags: "tags_set (Tags inst)"
    by simp_all
  from hasExcludeTags_no_panic [OF tags] obtain b where
    b: "hasExcludeTags excludeTags (Tags inst) = Inr b" by blast
  from ident obtain i where i: "InstanceId inst = Some i" by blast
  show ?case
    using b i Cons.IH [OF rest] by (cases b) simp_all
qed

lemma getInstances_reservations_surviving:
  "list_all (\<lambda>i. InstanceId i \<noteq> None \<and> tags_set (Tags i)) (concat (map Instances reservations)) \<Longrightarrow>
   getInstancesFromDescribeInstancesOutput_reservations excludeTags regionID reservations ret =
     Inr (ret @ map (\<lambda>i. \<lparr>inst_id = the (InstanceId i), inst_region = regionID,
                          inst_availabilityZone = []\<rparr>)
                  (filter (\<lambda>i. hasExcludeTags excludeTags (Tags i) \<noteq> Inr True)
                     (concat (map Instances reservations))))"
proof (induction reservations arbitrary: ret)
  case Nil
  then show ?case by simp
next
  case (Cons reservation rest)
  from Cons.prems have
    here: "list_all (\<lambda>i. InstanceId i \<noteq> None \<and> tags_set (Tags i)) (Instances reservation)" and
    rest: "list_all (\<lambda>i. InstanceId i \<noteq> None \<and> tags_set (Tags i)) (concat (map Instances rest))"
    by simp_all
  show ?case
    by (simp add: getInstances_instances_surviving [OF here] Cons.IH [OF rest])
qed

lemma getInstancesFromDescribeInstancesOutput_surviving:
  "page_ok out \<Longrightarrow>
   getInstancesFromDescribeInstancesOutput out excludeTags regionID =
     Inr (surviving excludeTags regionID out)"
  by (simp add: getInstancesFromDescribeInstancesOutput_def page_ok_def page_instances_def
      surviving_def getInstances_reservations_surviving)

lemma call_DescribeInstances_eq:
  "DescribeInstances (ec2Client c) (provider w) input regionID = (res, p') \<Longrightarrow>
   call_DescribeInstances c input regionID w =
     (res, w\<lparr>provider := p', calls := calls w @ [DescribeInstancesCall regionID input res]\<rparr>)"
  by (simp add: call_DescribeInstances_def)

lemma GetInstances_pages_served:
  "(case NextToken out of
      None \<Rightarrow> outs = [] \<and> p' = provider w
    | Some t \<Rightarrow>
        pages_served (ec2Client c) regionID (read_slice filters (heap w)) (maxResults d)
          (provider w) (Some t) outs p') \<Longrightarrow>
   list_all page_ok outs \<Longrightarrow>
   length outs \<le> fuel \<Longrightarrow>
   GetInstances_pages d fuel c filters excludeTags regionID out ret w =
     (Ok (ret @ concat (map (surviving excludeTags regionID) outs)),
      w\<lparr>provider := p',
        calls := calls w @
          page_exchanges regionID (read_slice filters (heap w)) (maxResults d)
            (NextToken out) outs\<rparr>)"
proof (induction outs arbitrary: fuel out ret w)
  case Nil
  then show ?case
    by (cases "NextToken out") (simp_all add: GetInstances_pages.simps)
next
  case (Cons page rest)
  from Cons.prems(1) obtain t where t: "NextToken out = Some t"
    by (cases "NextToken out") simp_all
  from Cons.prems(3) obtain fuel' where fuel: "fuel = Suc fuel'" and len: "length rest \<le> fuel'"
    by (cases fuel) simp_all
  let ?input = "\<lparr>Filters = read_slice filters (heap w), MaxResults = Some (maxResults d),
                  input_NextToken = Some t\<rparr>"
  obtain res p1 where step: "DescribeInstances (ec2Client c) (provider w) ?input regionID = (res, p1)"
    by (cases "DescribeInstances (ec2Client c) (provider w) ?input regionID")
  from Cons.prems(1) t step have res: "res = Inr page"
    and next_pages: "case NextToken page of
        None \<Rightarrow> rest = [] \<and> p' = p1
      | Some t' \<Rightarrow> pages_served (ec2Client c) regionID (read_slice filters (heap w))
          (maxResults d) p1 (Some t') rest p'"
    by (auto split: sum.splits)
  let ?w1 = "w\<lparr>provider := p1, calls := calls w @ [DescribeInstancesCall regionID ?input (Inr page)]\<rparr>"
  have call: "call_DescribeInstances c ?input regionID w = (Inr page, ?w1)"
    using call_DescribeInstances_eq [OF step] res by simp
  from Cons.prems(2) have ok: "page_ok page" and oks: "list_all page_ok rest" by simp_all
  have IH: "GetInstances_pages d fuel' c filters excludeTags regionID page
              (ret @ surviving excludeTags regionID page) ?w1 =
     (Ok ((ret @ surviving excludeTags regionID page) @
            concat (map (surviving excludeTags regionID) rest)),
      ?w1\<lparr>provider := p',
        calls := calls ?w1 @
          page_exchanges regionID (read_slice filters (heap ?w1)) (maxResults d)
            (NextToken page) rest\<rparr>)"
    using next_pages oks len by (intro Cons.IH) (simp_all split: option.splits)
  show ?case
    unfolding GetInstances_pages.simps [of d fuel]
    using t fuel call IH
    by (simp add: getInstancesFromDescribeInstancesOutput_surviving [OF ok])
qed

lemma GetInstances_served:
  assumes served: "pages_served (ec2Client c) regionID (read_slice filters (heap w))
             (maxResults d) (provider w) None outs p'"
    and ok: "list_all page_ok outs"
    and fuel: "length outs \<le> Suc fuel"
  shows "GetInstances d fuel c filters excludeTags regionID w =
     (Ok (concat (map (surviving excludeTags regionID) outs)),
      w\<lparr>provider := p',
        calls := calls w @
          page_exchanges regionID (read_slice filters (heap w)) (maxResults d) None outs\<rparr>)"
proof (cases outs)
  case Nil
  with served show ?thesis by simp
next
  case (Cons page rest)
  let ?input = "\<lparr>Filters = read_slice filters (heap w), MaxResults = Some (maxResults d),
                  input_NextToken = None\<rparr>"
  obtain res p1 where step: "DescribeInstances (ec2Client c) (provider w) ?input regionID = (res, p1)"
    by (cases "DescribeInstances (ec2Client c) (provider w) ?input regionID")
  from served Cons step have res: "res = Inr page"
    and next_pages: "case NextToken page of
        None \<Rightarrow> rest = [] \<and> p' = p1
      | Some t' \<Rightarrow> pages_served (ec2Client c) regionID (read_slice filters (heap w))
          (maxResults d) p1 (Some t') rest p'"
    by (auto split: sum.splits)
  let ?w1 = "w\<lparr>provider := p1, calls := calls w @ [DescribeInstancesCall regionID ?input (Inr page)]\<rparr>"
  have call: "call_DescribeInstances c ?input regionID w = (Inr page, ?w1)"
    using call_DescribeInstances_eq [OF step] res by simp
  from ok Cons have pok: "page_ok page" and oks: "list_all page_ok rest" by simp_all
  from fuel Cons have len: "length rest \<le> fuel" by simp
  have loop: "GetInstances_pages d fuel c filters excludeTags regionID page
              ([] @ surviving excludeTags regionID page) ?w1 =
     (Ok (([] @ surviving excludeTags regionID page) @
            concat (map (surviving excludeTags regionID) rest)),
      ?w1\<lparr>provider := p',
        calls := calls ?w1 @
          page_exchanges regionID (read_slice filters (heap ?w1)) (maxResults d)
            (NextToken page) rest\<rparr>)"
    using next_pages oks len by (intro GetInstances_pages_served) (simp_all split: option.splits)
  show ?thesis
    using Cons call loop
    by (simp add: GetInstances_def getInstancesFromDescribeInstancesOutput_surviving [OF pok])
qed

lemma surviving_ids:
  "map inst_id (concat (map (surviving excludeTags regionID) outs)) =
     map (\<lambda>i. the (InstanceId i))
       (filter (\<lambda>i. hasExcludeTags excludeTags (Tags i) \<noteq> Inr True)
          (concat (map page_instances outs)))"
  by (induction outs) (simp_all add: surviving_def comp_def)

lemma page_ok_ids:
  "list_all page_ok outs \<Longrightarrow>
   list_all (\<lambda>i. InstanceId i \<noteq> None) (concat (map page_instances outs))"
  by (induction outs) (auto simp: page_ok_def list_all_iff)

lemma distinct_surviving:
  assumes ok: "list_all page_ok outs"
    and d: "distinct (map InstanceId (concat (map page_instances outs)))"
  shows "distinct (map inst_id (concat (map (surviving excludeTags regionID) outs)))"
proof -
  let ?all = "concat (map page_instances outs)"
  let ?kept = "filter (\<lambda>i. hasExcludeTags excludeTags (Tags i) \<noteq> Inr True) ?all"
  have ids: "list_all (\<lambda>i. InstanceId i \<noteq> None) ?all" by (rule page_ok_ids [OF ok])
  have "distinct (map InstanceId ?kept)" using d by (rule distinct_map_filter)
  moreover have "inj_on the (set (map InstanceId ?kept))"
  proof (rule inj_onI)
    fix a b
    assume a: "a \<in> set (map InstanceId ?kept)" and b: "b \<in> set (map InstanceId ?kept)"
      and eq: "the a = the b"
    from a ids have "a \<noteq> None" by (auto simp: list_all_iff)
    moreover from b ids have "b \<noteq> None" by (auto simp: list_all_iff)
    ultimately show "a = b" using eq by (cases a; cases b) simp_all
  qed
  ultimately have "distinct (map the (map InstanceId ?kept))"
    by (simp only: distinct_map)
  then show ?thesis by (simp add: surviving_ids comp_def)
qed

text \<open>
  C3. When the provider serves the pages \<open>outs\<close> to the query of \<^verbatim>\<open>GetInstances\<close>
  (every page but the last with a continuation token) and the loop may run for as many
  pages, \<^verbatim>\<open>GetInstances\<close> returns the concatenation of the surviving instances of all the
  pages, in order. Its exchanges with the provider are exactly one request a page, each
  with the same filters, region and page size, the first without a token and every
  other with the token of the page before; nothing is sent after the page without a
  token. When no instance id occurs twice on the pages, none occurs twice in the result.
\<close>

theorem GetInstances_all_pages:
  assumes served: "pages_served (ec2Client c) regionID (read_slice filters (heap w))
             (maxResults d) (provider w) None outs p'"
    and ok: "list_all page_ok outs"
    and fuel: "length outs \<le> Suc fuel"
  shows "GetInstances d fuel c filters excludeTags regionID w =
     (Ok (concat (map (surviving excludeTags regionID) outs)),
      w\<lparr>provider := p',
        calls := calls w @
          page_exchanges regionID (read_slice filters (heap w)) (maxResults d) None outs\<rparr>) \<and>
   (distinct (map InstanceId (concat (map page_instances outs))) \<longrightarrow>
    distinct (map inst_id (concat (map (surviving excludeTags regionID) outs))))"
proof (intro conjI impI)
  show "GetInstances d fuel c filters excludeTags regionID w =
     (Ok (concat (map (surviving excludeTags regionID) outs)),
      w\<lparr>provider := p',
        calls := calls w @
          page_exchanges regionID (read_slice filters (heap w)) (maxResults d) None outs\<rparr>)"
    by (rule GetInstances_served [OF served ok fuel])
next
  assume "distinct (map InstanceId (concat (map page_instances outs)))"
  with ok show "distinct (map inst_id (concat (map (surviving excludeTags regionID) outs)))"
    by (rule distinct_surviving)
qed

theorem GetInstances_all_pages_witness:
  "pages_served (ec2Client fake_Client) ''us-east-1''
     (read_slice nil_slice (heap (fake_world [] (map Inr example_pages))))
     (maxResults example_deps) (provider (fake_world [] (map Inr example_pages))) None
     example_pages \<lparr>fake_catalog = [], fake_pages = []\<rparr> \<and>
   list_all page_ok example_pages \<and>
   length example_pages \<le> Suc 2 \<and>
   GetInstances example_deps 2 fake_Client nil_slice example_excludeTags ''us-east-1''
     (fake_world [] (map Inr example_pages)) =
     (Ok [\<lparr>inst_id = ''i-2'', inst_region = ''us-east-1'', inst_availabilityZone = []\<rparr>,
          \<lparr>inst_id = ''i-3'', inst_region = ''us-east-1'', inst_availabilityZone = []\<rparr>,
          \<lparr>inst_id = ''i-5'', inst_region = ''us-east-1'', inst_availabilityZone = []\<rparr>],
      \<lparr>heap = [], provider = \<lparr>fake_catalog = [], fake_pages = []\<rparr>,
       calls = page_exchanges ''us-east-1'' [] 50 None example_pages\<rparr>) \<and>
   length (page_exchanges ''us-east-1'' [] 50 None example_pages) = 3 \<and>
   distinct (map InstanceId (concat (map page_instances example_pages)))"
proof -
  have served: "pages_served (ec2Client fake_Client) ''us-east-1''
     (read_slice nil_slice (heap (fake_world [] (map Inr example_pages))))
     (maxResults example_deps) (provider (fake_world [] (map Inr example_pages))) None
     example_pages \<lparr>fake_catalog = [], fake_pages = []\<rparr>"
    by (simp add: fake_Client_def fake_world_def example_pages_def fake_DescribeInstances_def)
  have ok: "list_all page_ok example_pages"
    by (simp add: example_pages_def page_ok_def page_instances_def example_instance_def
        tags_set_def)
  have fuel: "length example_pages \<le> Suc 2"
    by (simp add: example_pages_def)
  have surv: "concat (map (surviving example_excludeTags ''us-east-1'') example_pages) =
      [\<lparr>inst_id = ''i-2'', inst_region = ''us-east-1'', inst_availabilityZone = []\<rparr>,
       \<lparr>inst_id = ''i-3'', inst_region = ''us-east-1'', inst_availabilityZone = []\<rparr>,
       \<lparr>inst_id = ''i-5'', inst_region = ''us-east-1'', inst_availabilityZone = []\<rparr>]"
    by (simp add: example_pages_def surviving_def page_instances_def example_instance_def
        example_excludeTags_def hasExcludeTags_def)
  have toks: "length (page_exchanges ''us-east-1'' [] 50 None example_pages) = 3"
    by (simp add: example_pages_def)
  have ids: "distinct (map InstanceId (concat (map page_instances example_pages)))"
    by (simp add: example_pages_def page_instances_def example_instance_def)
  show ?thesis
    using served ok fuel toks ids
      GetInstances_all_pages [OF served ok fuel, of example_excludeTags]
    by (simp add: surv) (simp add: fake_world_def read_slice_def nil_slice_def example_deps_def)
qed

section \<open>The exchanges of an instance query\<close>

lemma fail_fast_clean:
  "list_all (\<lambda>x. \<not> failed_query x) cs \<Longrightarrow> fail_fast prefix r cs"
  by (simp add: fail_fast_def)

lemma fail_fast_failed:
  "fail_fast prefix (Err (prefix @ err)) [DescribeInstancesCall regionID input (Inl err)]"
  unfolding fail_fast_def by (rule disjI2) (rule exI [of _ "[]"], simp)

lemma fail_fast_prepend:
  assumes "list_all (\<lambda>x. \<not> failed_query x) cs1" and "fail_fast prefix r cs2"
  shows "fail_fast prefix r (cs1 @ cs2)"
  using assms(2) unfolding fail_fast_def
proof (elim disjE exE conjE)
  assume "list_all (\<lambda>x. \<not> failed_query x) cs2"
  with assms(1) show "list_all (\<lambda>x. \<not> failed_query x) (cs1 @ cs2) \<or>
    (\<exists>cs0 regionID input err.
        cs1 @ cs2 = cs0 @ [DescribeInstancesCall regionID input (Inl err)] \<and>
        list_all (\<lambda>x. \<not> failed_query x) cs0 \<and> r = Err (prefix @ err))"
    by simp
next
  fix cs0 regionID input err
  assume "cs2 = cs0 @ [DescribeInstancesCall regionID input (Inl err)]"
    "list_all (\<lambda>x. \<not> failed_query x) cs0" "r = Err (prefix @ err)"
  with assms(1) have "cs1 @ cs2 = (cs1 @ cs0) @ [DescribeInstancesCall regionID input (Inl err)] \<and>
        list_all (\<lambda>x. \<not> failed_query x) (cs1 @ cs0) \<and> r = Err (prefix @ err)"
    by simp
  then show "list_all (\<lambda>x. \<not> failed_query x) (cs1 @ cs2) \<or>
    (\<exists>cs0 regionID input err.
        cs1 @ cs2 = cs0 @ [DescribeInstancesCall regionID input (Inl err)] \<and>
        list_all (\<lambda>x. \<not> failed_query x) cs0 \<and> r = Err (prefix @ err))"
    by blast
qed

lemma fail_fast_Ok_clean:
  "fail_fast prefix (Ok x) cs \<Longrightarrow> list_all (\<lambda>x. \<not> failed_query x) cs"
  by (auto simp: fail_fast_def)

lemma fail_fast_wrap:
  assumes "fail_fast prefix (Err e) cs"
  shows "fail_fast (outer @ prefix) (Err (outer @ e)) cs"
  using assms unfolding fail_fast_def by auto

lemma fail_fast_last:
  assumes ff: "fail_fast prefix r cs" and i: "i < length cs"
    and at: "cs ! i = DescribeInstancesCall regionID input (Inl err)"
  shows "r = Err (prefix @ err) \<and> Suc i = length cs"
proof -
  have bad: "failed_query (cs ! i)" using at by simp
  have "\<not> list_all (\<lambda>x. \<not> failed_query x) cs"
    using bad i by (auto simp: list_all_length)
  with ff obtain cs0 regionID' input' err' where
    cs: "cs = cs0 @ [DescribeInstancesCall regionID' input' (Inl err')]" and
    clean: "list_all (\<lambda>x. \<not> failed_query x) cs0" and r: "r = Err (prefix @ err')"
    unfolding fail_fast_def by blast
  have "\<not> i < length cs0"
  proof
    assume "i < length cs0"
    then have "cs ! i = cs0 ! i" using cs by (simp add: nth_append)
    moreover have "\<not> failed_query (cs0 ! i)"
      using clean \<open>i < length cs0\<close> by (simp add: list_all_length)
    ultimately show False using bad by simp
  qed
  with i cs have i_eq: "i = length cs0" by simp
  with cs at have "err' = err" by simp
  with r i_eq cs show ?thesis by simp
qed


lemma call_DescribeInstances_effect:
  assumes "call_DescribeInstances c input regionID w = (res, w1)"
  shows "heap w1 = heap w" and "calls w1 = calls w @ [DescribeInstancesCall regionID input res]"
  using assms by (auto simp: call_DescribeInstances_def split: prod.splits)

lemma GetInstances_pages_trace:
  "GetInstances_pages d fuel c filters excludeTags regionID out ret w = (r, w') \<Longrightarrow>
   heap w' = heap w \<and>
   (\<exists>cs. calls w' = calls w @ cs \<and>
      list_all (\<lambda>x. query_of x = Some (regionID, read_slice filters (heap w))) cs \<and>
      fail_fast ''failed to describe instances: '' r cs)"
proof (induction fuel arbitrary: out ret w)
  case 0
  then show ?case
    by (cases "NextToken out") (auto simp: GetInstances_pages.simps fail_fast_def)
next
  case (Suc fuel)
  show ?case
  proof (cases "NextToken out")
    case None
    with Suc.prems show ?thesis
      by (auto simp: GetInstances_pages.simps fail_fast_def)
  next
    case (Some token)
    let ?input = "\<lparr>Filters = read_slice filters (heap w), MaxResults = Some (maxResults d),
                    input_NextToken = Some token\<rparr>"
    obtain res w1 where call: "call_DescribeInstances c ?input regionID w = (res, w1)"
      by (cases "call_DescribeInstances c ?input regionID w")
    note eff = call_DescribeInstances_effect [OF call]
    have q: "query_of (DescribeInstancesCall regionID ?input res) =
               Some (regionID, read_slice filters (heap w))"
      by simp
    show ?thesis
    proof (cases res)
      case (Inl err)
      with Suc.prems Some call have r: "r = Err (''failed to describe instances: '' @ err)"
        and w': "w' = w1"
        by (simp_all add: GetInstances_pages.simps)
      have "fail_fast ''failed to describe instances: '' r
              [DescribeInstancesCall regionID ?input (Inl err)]"
        unfolding r by (rule fail_fast_failed)
      with eff w' Inl q show ?thesis by simp
    next
      case (Inr out')
      show ?thesis
      proof (cases "getInstancesFromDescribeInstancesOutput out' excludeTags regionID")
        case (Inl p)
        with Suc.prems Some call Inr have r: "r = Panicked p" and w': "w' = w1"
          by (simp_all add: GetInstances_pages.simps)
        have "fail_fast ''failed to describe instances: '' r
                [DescribeInstancesCall regionID ?input (Inr out')]"
          by (rule fail_fast_clean) simp
        with eff w' Inr q show ?thesis by simp
      next
        case (Inr instances)
        with Suc.prems Some call \<open>res = Inr out'\<close> have
          "GetInstances_pages d fuel c filters excludeTags regionID out' (ret @ instances) w1 =
             (r, w')"
          by (simp add: GetInstances_pages.simps)
        from Suc.IH [OF this] obtain cs where
          h: "heap w' = heap w1" and cs: "calls w' = calls w1 @ cs" and
          qs: "list_all (\<lambda>x. query_of x = Some (regionID, read_slice filters (heap w1))) cs" and
          ff: "fail_fast ''failed to describe instances: '' r cs"
          by blast
        have "fail_fast ''failed to describe instances: '' r
                ([DescribeInstancesCall regionID ?input (Inr out')] @ cs)"
          by (rule fail_fast_prepend [OF _ ff]) simp
        moreover have "calls w' = calls w @ [DescribeInstancesCall regionID ?input (Inr out')] @ cs"
          using cs eff \<open>res = Inr out'\<close> by simp
        moreover have "list_all (\<lambda>x. query_of x = Some (regionID, read_slice filters (heap w)))
                ([DescribeInstancesCall regionID ?input (Inr out')] @ cs)"
          using qs eff by simp
        ultimately show ?thesis using h eff by metis
      qed
    qed
  qed
qed

lemma GetInstances_trace:
  assumes "GetInstances d fuel c filters excludeTags regionID w = (r, w')"
  shows "heap w' = heap w \<and>
   (\<exists>cs. calls w' = calls w @ cs \<and> cs \<noteq> [] \<and>
      list_all (\<lambda>x. query_of x = Some (regionID, read_slice filters (heap w))) cs \<and>
      fail_fast ''failed to describe instances: '' r cs)"
proof -
  let ?input = "\<lparr>Filters = read_slice filters (heap w), MaxResults = Some (maxResults d),
                  input_NextToken = None\<rparr>"
  obtain res w1 where call: "call_DescribeInstances c ?input regionID w = (res, w1)"
    by (cases "call_DescribeInstances c ?input regionID w")
  note eff = call_DescribeInstances_effect [OF call]
  have q: "query_of (DescribeInstancesCall regionID ?input res) =
             Some (regionID, read_slice filters (heap w))"
    by simp
  show ?thesis
  proof (cases res)
    case (Inl err)
    with assms call have r: "r = Err (''failed to describe instances: '' @ err)"
      and w': "w' = w1"
      by (simp_all add: GetInstances_def)
    have "fail_fast ''failed to describe instances: '' r
            [DescribeInstancesCall regionID ?input (Inl err)]"
      unfolding r by (rule fail_fast_failed)
    with eff w' Inl q show ?thesis by simp
  next
    case (Inr out)
    show ?thesis
    proof (cases "getInstancesFromDescribeInstancesOutput out excludeTags regionID")
      case (Inl p)
      with assms call Inr have r: "r = Panicked p" and w': "w' = w1"
        by (simp_all add: GetInstances_def)
      have "fail_fast ''failed to describe instances: '' r
              [DescribeInstancesCall regionID ?input (Inr out)]"
        by (rule fail_fast_clean) simp
      with eff w' Inr q show ?thesis by simp
    next
      case (Inr instances)
      with assms call \<open>res = Inr out\<close> have
        "GetInstances_pages d fuel c filters excludeTags regionID out ([] @ instances) w1 = (r, w')"
        by (simp add: GetInstances_def)
      from GetInstances_pages_trace [OF this] obtain cs where
        h: "heap w' = heap w1" and cs: "calls w' = calls w1 @ cs" and
        qs: "list_all (\<lambda>x. query_of x = Some (regionID, read_slice filters (heap w1))) cs" and
        ff: "fail_fast ''failed to describe instances: '' r cs"
        by blast
      have "fail_fast ''failed to describe instances: '' r
              ([DescribeInstancesCall regionID ?input (Inr out)] @ cs)"
        by (rule fail_fast_prepend [OF _ ff]) simp
      moreover have "calls w' = calls w @ [DescribeInstancesCall regionID ?input (Inr out)] @ cs"
        using cs eff \<open>res = Inr out\<close> by simp
      moreover have "list_all (\<lambda>x. query_of x = Some (regionID, read_slice filters (heap w)))
              ([DescribeInstancesCall regionID ?input (Inr out)] @ cs)"
        using qs eff by simp
      moreover have "[DescribeInstancesCall regionID ?input (Inr out)] @ cs \<noteq> []" by simp
      ultimately show ?thesis using h eff by metis
    qed
  qed
qed

section \<open>Appending to a slice\<close>

lemma array_at_nth: "a < length h \<Longrightarrow> array_at h a = h ! a"
  by (simp add: array_at_def)

lemma append_slice_in_place:
  assumes ok: "slice_ok s h" and arr: "slice_array s = Some a"
    and fits: "slice_len s + length xs \<le> slice_cap s"
    and app: "append_slice grow s xs h = (s', h')"
  shows "read_slice s' h' = read_slice s h @ xs"
    and "read_slice s h' = read_slice s h"
    and "slice_ok s h'"
proof -
  from ok arr have a: "a < length h" and len: "slice_len s \<le> length (h ! a)"
    and cap: "slice_cap s \<le> length (h ! a)"
    by (simp_all add: slice_ok_def)
  let ?A = "h ! a"
  let ?A' = "take (slice_len s) ?A @ xs @ drop (slice_len s + length xs) ?A"
  from app arr fits a have s': "s' = s\<lparr>slice_len := slice_len s + length xs\<rparr>"
    and h': "h' = h[a := ?A']"
    by (simp_all add: append_slice_def Let_def array_at_nth)
  have A': "array_at h' a = ?A'" using a h' by (simp add: array_at_def)
  have l: "length (take (slice_len s) ?A) = slice_len s" using len by simp
  show "read_slice s' h' = read_slice s h @ xs"
    using arr a l by (simp add: read_slice_def s' A' array_at_nth)
  show "read_slice s h' = read_slice s h"
    using arr a l by (simp add: read_slice_def A' array_at_nth)
  have "length ?A' = length ?A" using len cap fits by simp
  then show "slice_ok s h'"
    using arr a len cap h' by (simp add: slice_ok_def)
qed

lemma append_slice_nil_in_place:
  assumes ok: "slice_ok s h" and arr: "slice_array s = None"
    and fits: "slice_len s + length xs \<le> slice_cap s"
    and app: "append_slice grow s xs h = (s', h')"
  shows "read_slice s' h' = read_slice s h @ xs"
    and "read_slice s h' = read_slice s h"
    and "slice_ok s h'"
proof -
  from ok arr have "slice_len s = 0" "slice_cap s = 0" by (simp_all add: slice_ok_def)
  with fits have xs: "xs = []" by simp
  from app arr fits have "s' = s\<lparr>slice_len := slice_len s + length xs\<rparr>" and h': "h' = h"
    by (simp_all add: append_slice_def Let_def)
  then show "read_slice s' h' = read_slice s h @ xs"
    using arr xs by (simp add: read_slice_def)
  show "read_slice s h' = read_slice s h" using h' by simp
  show "slice_ok s h'" using h' ok by simp
qed

lemma append_slice_grown:
  assumes ok: "slice_ok s h"
    and grows: "\<not> slice_len s + length xs \<le> slice_cap s"
    and app: "append_slice grow s xs h = (s', h')"
  shows "read_slice s' h' = read_slice s h @ xs"
    and "read_slice s h' = read_slice s h"
    and "slice_ok s h'"
proof -
  let ?n = "slice_len s + length xs"
  let ?B = "read_slice s h @ xs @ replicate (grow (slice_cap s) ?n - ?n) zero_Filter"
  from app grows have s': "s' = \<lparr>slice_array = Some (length h), slice_len = ?n,
        slice_cap = grow (slice_cap s) ?n\<rparr>"
    and h': "h' = h @ [?B]"
    by (simp_all add: append_slice_def Let_def)
  have l: "length (read_slice s h) = slice_len s"
    using ok by (auto simp: slice_ok_def read_slice_def array_at_nth split: option.splits)
  have B: "array_at h' (length h) = ?B" using h' by (simp add: array_at_def)
  show "read_slice s' h' = read_slice s h @ xs"
    using l by (simp add: read_slice_def s' B)
  have old: "array_at h' a = array_at h a" if "a < length h" for a
    using that h' by (simp add: array_at_def nth_append)
  show "read_slice s h' = read_slice s h"
    using ok old by (auto simp: read_slice_def slice_ok_def split: option.splits)
  show "slice_ok s h'"
    using ok h' by (auto simp: slice_ok_def nth_append split: option.splits)
qed

lemma append_slice_frame:
  assumes ok: "slice_ok s h" and app: "append_slice grow s xs h = (s', h')"
  shows "read_slice s' h' = read_slice s h @ xs"
    and "read_slice s h' = read_slice s h"
    and "slice_ok s h'"
proof -
  consider (grown) "\<not> slice_len s + length xs \<le> slice_cap s"
    | (nil) "slice_len s + length xs \<le> slice_cap s" "slice_array s = None"
    | (in_place) a where "slice_len s + length xs \<le> slice_cap s" "slice_array s = Some a"
    by (cases "slice_array s") auto
  then have "read_slice s' h' = read_slice s h @ xs \<and> read_slice s h' = read_slice s h \<and>
      slice_ok s h'"
  proof cases
    case grown
    from append_slice_grown [OF ok grown app] show ?thesis by simp
  next
    case nil
    from append_slice_nil_in_place [OF ok nil(2) nil(1) app] show ?thesis by simp
  next
    case in_place
    from append_slice_in_place [OF ok in_place(2) in_place(1) app] show ?thesis by simp
  qed
  then show "read_slice s' h' = read_slice s h @ xs"
    and "read_slice s h' = read_slice s h"
    and "slice_ok s h'"
    by simp_all
qed

lemma append_slice_result_ok:
  assumes ok: "slice_ok s h" and app: "append_slice grow s xs h = (s', h')"
  shows "slice_ok s' h'"
proof (cases "slice_len s + length xs \<le> slice_cap s")
  case True
  show ?thesis
  proof (cases "slice_array s")
    case None
    with ok True app show ?thesis
      by (auto simp: append_slice_def Let_def slice_ok_def)
  next
    case (Some a)
    from ok Some have a: "a < length h" and len: "slice_len s \<le> length (h ! a)"
      and cap: "slice_cap s \<le> length (h ! a)"
      by (simp_all add: slice_ok_def)
    with True Some app show ?thesis
      by (auto simp: append_slice_def Let_def slice_ok_def array_at_nth)
  qed
next
  case False
  have "length (read_slice s h) = slice_len s"
    using ok by (auto simp: slice_ok_def read_slice_def array_at_nth split: option.splits)
  with False app show ?thesis
    by (auto simp: append_slice_def Let_def slice_ok_def nth_append)
qed

section \<open>The filters of the queries of a discovery\<close>

lemma follows_queries_none: "follows_queries False qs []"
  unfolding follows_queries_def by (rule exI [of _ "[]"]) simp

lemma follows_queries_done: "follows_queries all [] []"
  unfolding follows_queries_def by (rule exI [of _ "[]"]) simp

lemma follows_queries_append:
  assumes one: "follows_queries True qs1 cs1" and two: "follows_queries all qs2 cs2"
  shows "follows_queries all (qs1 @ qs2) (cs1 @ cs2)"
proof -
  let ?P = "\<lambda>g q. g \<noteq> [] \<and> list_all (\<lambda>x. query_of x = Some q) g"
  from one obtain g1 where g1: "cs1 = concat g1" "length g1 = length qs1"
    "list_all2 ?P g1 (take (length g1) qs1)"
    unfolding follows_queries_def by auto
  from two obtain g2 where g2: "cs2 = concat g2" "length g2 \<le> length qs2"
    "all \<longrightarrow> length g2 = length qs2" "list_all2 ?P g2 (take (length g2) qs2)"
    unfolding follows_queries_def by auto
  have t: "take (length (g1 @ g2)) (qs1 @ qs2) = qs1 @ take (length g2) qs2"
    using g1(2) by simp
  have "list_all2 ?P (g1 @ g2) (qs1 @ take (length g2) qs2)"
    using g1(2,3) g2(4) by (intro list_all2_appendI) simp_all
  then have "list_all2 ?P (g1 @ g2) (take (length (g1 @ g2)) (qs1 @ qs2))"
    by (simp only: t)
  moreover have "cs1 @ cs2 = concat (g1 @ g2)" using g1(1) g2(1) by simp
  moreover have "length (g1 @ g2) \<le> length (qs1 @ qs2)" using g1(2) g2(2) by simp
  moreover have "all \<longrightarrow> length (g1 @ g2) = length (qs1 @ qs2)" using g1(2) g2(3) by simp
  ultimately show ?thesis unfolding follows_queries_def by blast
qed

lemma follows_queries_one:
  assumes "cs \<noteq> []" and "list_all (\<lambda>x. query_of x = Some q) cs"
  shows "follows_queries True [q] cs"
  unfolding follows_queries_def using assms by (intro exI [of _ "[cs]"]) simp

lemma follows_queries_weaken:
  assumes "follows_queries all qs cs"
  shows "follows_queries False (qs @ qs') cs"
proof -
  let ?P = "\<lambda>g q. g \<noteq> [] \<and> list_all (\<lambda>x. query_of x = Some q) g"
  from assms obtain g where g: "cs = concat g" "length g \<le> length qs"
    "list_all2 ?P g (take (length g) qs)"
    unfolding follows_queries_def by auto
  have "take (length g) (qs @ qs') = take (length g) qs" using g(2) by simp
  with g show ?thesis unfolding follows_queries_def by (intro exI [of _ g]) simp
qed

lemma follows_queries_step:
  assumes one: "cs1 \<noteq> []" "list_all (\<lambda>x. query_of x = Some q) cs1"
    and rest: "follows_queries all qs cs2"
  shows "follows_queries all (q # qs) (cs1 @ cs2)"
  using follows_queries_append [OF follows_queries_one [OF one] rest] by simp

lemma follows_queries_stop:
  assumes one: "cs1 \<noteq> []" "list_all (\<lambda>x. query_of x = Some q) cs1"
  shows "follows_queries False (q # qs) cs1"
  using follows_queries_step [OF one follows_queries_none [of qs]] by simp

lemma is_Ok_simps [simp]:
  "is_Ok (Ok x)" "\<not> is_Ok (Err e)" "\<not> is_Ok (Panicked p)" "\<not> is_Ok OutOfFuel"
  by (simp_all add: is_Ok_def)

lemma Discover_vpcs_queries:
  "slice_ok filters (heap w) \<Longrightarrow>
   Discover_vpcs d fuel c filters excludeTags regionName vpcs ret w = (r, w') \<Longrightarrow>
   slice_ok filters (heap w') \<and>
   read_slice filters (heap w') = read_slice filters (heap w) \<and>
   (\<exists>cs. calls w' = calls w @ cs \<and>
      follows_queries (is_Ok r)
        (map (\<lambda>vpc. (regionName, read_slice filters (heap w) @ createVPCFilters vpc)) vpcs) cs)"
proof (induction vpcs arbitrary: ret w)
  case Nil
  then show ?case by (auto simp: follows_queries_done)
next
  case (Cons vpc rest)
  let ?base = "read_slice filters (heap w)"
  let ?q = "(regionName, ?base @ createVPCFilters vpc)"
  let ?qs = "map (\<lambda>vpc. (regionName, ?base @ createVPCFilters vpc)) rest"
  obtain vpcFilters h' where
    app: "append_slice (growslice_cap d) filters (createVPCFilters vpc) (heap w) = (vpcFilters, h')"
    by (cases "append_slice (growslice_cap d) filters (createVPCFilters vpc) (heap w)")
  note frame = append_slice_frame [OF Cons.prems(1) app]
  obtain r1 w1 where
    get: "GetInstances d fuel c vpcFilters excludeTags regionName (w\<lparr>heap := h'\<rparr>) = (r1, w1)"
    by (cases "GetInstances d fuel c vpcFilters excludeTags regionName (w\<lparr>heap := h'\<rparr>)")
  from GetInstances_trace [OF get] frame(1) obtain cs1 where
    h1: "heap w1 = h'" and cs1: "calls w1 = calls w @ cs1" and ne: "cs1 \<noteq> []" and
    q1: "list_all (\<lambda>x. query_of x = Some ?q) cs1"
    by auto
  have ok1: "slice_ok filters (heap w1)" and base1: "read_slice filters (heap w1) = ?base"
    using frame h1 by simp_all
  show ?case
  proof (cases r1)
    case (Ok instances)
    with Cons.prems(2) app get have
      "Discover_vpcs d fuel c filters excludeTags regionName rest (ret @ instances) w1 = (r, w')"
      by simp
    from Cons.IH [OF ok1 this] base1 obtain cs2 where
      "slice_ok filters (heap w')" "read_slice filters (heap w') = ?base"
      "calls w' = calls w1 @ cs2" "follows_queries (is_Ok r) ?qs cs2"
      by auto
    moreover from this(4) have "follows_queries (is_Ok r) (?q # ?qs) (cs1 @ cs2)"
      by (rule follows_queries_step [OF ne q1])
    ultimately show ?thesis using cs1 by auto
  next
    case (Err err)
    with Cons.prems(2) app get have "\<not> is_Ok r" "w' = w1" by auto
    with ok1 base1 cs1 follows_queries_stop [OF ne q1, of ?qs] show ?thesis by auto
  next
    case (Panicked p)
    with Cons.prems(2) app get have "\<not> is_Ok r" "w' = w1" by auto
    with ok1 base1 cs1 follows_queries_stop [OF ne q1, of ?qs] show ?thesis by auto
  next
    case OutOfFuel
    with Cons.prems(2) app get have "\<not> is_Ok r" "w' = w1" by auto
    with ok1 base1 cs1 follows_queries_stop [OF ne q1, of ?qs] show ?thesis by auto
  qed
qed

lemma scope_queries_Cons:
  "scope_queries base (region # rest) = region_queries base region @ scope_queries base rest"
  by (simp add: scope_queries_def)

lemma Discover_regions_queries:
  "slice_ok filters (heap w) \<Longrightarrow>
   Discover_regions d fuel c filters excludeTags regions ret w = (r, w') \<Longrightarrow>
   slice_ok filters (heap w') \<and>
   read_slice filters (heap w') = read_slice filters (heap w) \<and>
   (\<exists>cs. calls w' = calls w @ cs \<and>
      follows_queries (is_Ok r) (scope_queries (read_slice filters (heap w)) regions) cs)"
proof (induction regions arbitrary: ret w)
  case Nil
  then show ?case by (auto simp: follows_queries_done scope_queries_def)
next
  case (Cons region rest)
  let ?base = "read_slice filters (heap w)"
  let ?qs = "scope_queries ?base rest"
  show ?case
  proof (cases "region_vpcs region = []")
    case True
    let ?q = "(region_name region, ?base)"
    have rq: "region_queries ?base region = [?q]" using True by (simp add: region_queries_def)
    obtain r1 w1 where
      get: "GetInstances d fuel c filters excludeTags (region_name region) w = (r1, w1)"
      by (cases "GetInstances d fuel c filters excludeTags (region_name region) w")
    from GetInstances_trace [OF get] obtain cs1 where
      h1: "heap w1 = heap w" and cs1: "calls w1 = calls w @ cs1" and ne: "cs1 \<noteq> []" and
      q1: "list_all (\<lambda>x. query_of x = Some ?q) cs1"
      by auto
    have ok1: "slice_ok filters (heap w1)" and base1: "read_slice filters (heap w1) = ?base"
      using Cons.prems(1) h1 by simp_all
    show ?thesis
    proof (cases r1)
      case (Ok instances)
      with Cons.prems(2) True get have
        "Discover_regions d fuel c filters excludeTags rest (ret @ instances) w1 = (r, w')"
        by simp
      from Cons.IH [OF ok1 this] base1 obtain cs2 where
        "slice_ok filters (heap w')" "read_slice filters (heap w') = ?base"
        "calls w' = calls w1 @ cs2" "follows_queries (is_Ok r) ?qs cs2"
        by auto
      moreover from this(4) have "follows_queries (is_Ok r) (?q # ?qs) (cs1 @ cs2)"
        by (rule follows_queries_step [OF ne q1])
      ultimately show ?thesis using cs1 rq by (auto simp: scope_queries_Cons)
    next
      case (Err err)
      with Cons.prems(2) True get have "\<not> is_Ok r" "w' = w1" by auto
      with ok1 base1 cs1 rq follows_queries_stop [OF ne q1, of ?qs] show ?thesis
        by (auto simp: scope_queries_Cons)
    next
      case (Panicked p)
      with Cons.prems(2) True get have "\<not> is_Ok r" "w' = w1" by auto
      with ok1 base1 cs1 rq follows_queries_stop [OF ne q1, of ?qs] show ?thesis
        by (auto simp: scope_queries_Cons)
    next
      case OutOfFuel
      with Cons.prems(2) True get have "\<not> is_Ok r" "w' = w1" by auto
      with ok1 base1 cs1 rq follows_queries_stop [OF ne q1, of ?qs] show ?thesis
        by (auto simp: scope_queries_Cons)
    qed
  next
    case False
    let ?q1 = "map (\<lambda>vpc. (region_name region, ?base @ createVPCFilters vpc)) (region_vpcs region)"
    have rq: "region_queries ?base region = ?q1" using False by (simp add: region_queries_def)
    obtain r1 w1 where
      vpcs: "Discover_vpcs d fuel c filters excludeTags (region_name region)
               (region_vpcs region) ret w = (r1, w1)"
      by (cases "Discover_vpcs d fuel c filters excludeTags (region_name region)
               (region_vpcs region) ret w")
    from Discover_vpcs_queries [OF Cons.prems(1) vpcs] obtain cs1 where
      ok1: "slice_ok filters (heap w1)" and base1: "read_slice filters (heap w1) = ?base" and
      cs1: "calls w1 = calls w @ cs1" and f1: "follows_queries (is_Ok r1) ?q1 cs1"
      by auto
    show ?thesis
    proof (cases r1)
      case (Ok ret')
      with Cons.prems(2) False vpcs have
        "Discover_regions d fuel c filters excludeTags rest ret' w1 = (r, w')"
        by simp
      from Cons.IH [OF ok1 this] base1 obtain cs2 where
        "slice_ok filters (heap w')" "read_slice filters (heap w') = ?base"
        "calls w' = calls w1 @ cs2" "follows_queries (is_Ok r) ?qs cs2"
        by auto
      moreover from f1 Ok this(4) have "follows_queries (is_Ok r) (?q1 @ ?qs) (cs1 @ cs2)"
        by (intro follows_queries_append) simp_all
      ultimately show ?thesis using cs1 rq by (auto simp: scope_queries_Cons)
    next
      case (Err err)
      with Cons.prems(2) False vpcs have "\<not> is_Ok r" "w' = w1" by auto
      with ok1 base1 cs1 rq follows_queries_weaken [OF f1, of ?qs] show ?thesis
        by (auto simp: scope_queries_Cons)
    next
      case (Panicked p)
      with Cons.prems(2) False vpcs have "\<not> is_Ok r" "w' = w1" by auto
      with ok1 base1 cs1 rq follows_queries_weaken [OF f1, of ?qs] show ?thesis
        by (auto simp: scope_queries_Cons)
    next
      case OutOfFuel
      with Cons.prems(2) False vpcs have "\<not> is_Ok r" "w' = w1" by auto
      with ok1 base1 cs1 rq follows_queries_weaken [OF f1, of ?qs] show ?thesis
        by (auto simp: scope_queries_Cons)
    qed
  qed
qed

lemma nil_slice_ok: "slice_ok nil_slice h" and read_nil_slice: "read_slice nil_slice h = []"
  by (simp_all add: slice_ok_def nil_slice_def read_slice_def)

lemma Discover_base_filters_ok:
  assumes "Discover_base_filters d scope h = (filters, h')"
  shows "slice_ok filters h'"
    and "read_slice filters h' =
           createInclusionTagsFilters (TagSelector scope) @
           createInstanceStateFilters (ScanStopped scope)"
proof -
  obtain f1 h1 where
    one: "append_slice (growslice_cap d) nil_slice
            (createInclusionTagsFilters (TagSelector scope)) h = (f1, h1)"
    by (cases "append_slice (growslice_cap d) nil_slice
            (createInclusionTagsFilters (TagSelector scope)) h")
  with assms have
    two: "append_slice (growslice_cap d) f1
            (createInstanceStateFilters (ScanStopped scope)) h1 = (filters, h')"
    by (simp add: Discover_base_filters_def)
  have ok1: "slice_ok f1 h1" by (rule append_slice_result_ok [OF nil_slice_ok one])
  have r1: "read_slice f1 h1 = createInclusionTagsFilters (TagSelector scope)"
    using append_slice_frame(1) [OF nil_slice_ok one] by (simp add: read_nil_slice)
  show "slice_ok filters h'" by (rule append_slice_result_ok [OF ok1 two])
  show "read_slice filters h' =
           createInclusionTagsFilters (TagSelector scope) @
           createInstanceStateFilters (ScanStopped scope)"
    using append_slice_frame(1) [OF ok1 two] r1 by simp
qed

text \<open>
  C1, as the code has it. Take a discovery whose scope converts and resolves to at least
  one region. Its exchanges with the provider after the region resolution follow the
  queries of the scope: in the order of the regions and of their VPCs, every request
  for a VPC carries the base filters (the tag-inclusion filters, then the instance-state
  filter) followed by exactly the filters of that VPC, and every request for a region
  without VPCs carries the base filters alone; when the discovery returns a list, every
  query was sent. When the discovery ends, the elements of the base slice are still
  the base filters. This holds for every capacity that \<^verbatim>\<open>append\<close> may choose. It does
  not say that the slice of a VPC has an array of its own.
\<close>

theorem Discover_queries_filters:
  assumes conv: "AsAwsScanScope d scanScope = Inr awsScanScope"
    and regs: "getRegionsToScan c (convertScope awsScanScope) w = (Ok regions, w1)"
    and some: "regions \<noteq> []"
  shows "follows_queries (is_Ok (fst (Discover d fuel c scanScope w)))
           (scope_queries
              (createInclusionTagsFilters (TagSelector (convertScope awsScanScope)) @
               createInstanceStateFilters (ScanStopped (convertScope awsScanScope)))
              regions)
           (calls_since w1 (snd (Discover d fuel c scanScope w))) \<and>
         read_slice (fst (Discover_base_filters d (convertScope awsScanScope) (heap w1)))
           (heap (snd (Discover d fuel c scanScope w))) =
           createInclusionTagsFilters (TagSelector (convertScope awsScanScope)) @
           createInstanceStateFilters (ScanStopped (convertScope awsScanScope))"
proof -
  let ?scope = "convertScope awsScanScope"
  let ?base = "createInclusionTagsFilters (TagSelector ?scope) @
               createInstanceStateFilters (ScanStopped ?scope)"
  obtain filters h where base: "Discover_base_filters d ?scope (heap w1) = (filters, h)"
    by (cases "Discover_base_filters d ?scope (heap w1)")
  note ok = Discover_base_filters_ok [OF base]
  obtain r w' where run: "Discover_regions d fuel c filters (ExcludeTags ?scope) regions []
      (w1\<lparr>heap := h\<rparr>) = (r, w')"
    by (cases "Discover_regions d fuel c filters (ExcludeTags ?scope) regions [] (w1\<lparr>heap := h\<rparr>)")
  have d: "Discover d fuel c scanScope w = (r, w')"
    using conv regs some base run by (simp add: Discover_def)
  have "slice_ok filters (heap (w1\<lparr>heap := h\<rparr>))" using ok(1) by simp
  from Discover_regions_queries [OF this run] ok(2) obtain cs where
    "read_slice filters (heap w') = ?base" "calls w' = calls w1 @ cs"
    "follows_queries (is_Ok r) (scope_queries ?base regions) cs"
    by auto
  then show ?thesis
    using d base by (simp add: calls_since_def)
qed

section \<open>A failed query ends the discovery\<close>

lemma GetInstances_fail_fast:
  assumes "GetInstances d fuel c filters excludeTags regionID w = (r, w')"
  shows "\<exists>cs. calls w' = calls w @ cs \<and> fail_fast ''failed to describe instances: '' r cs"
  using GetInstances_trace [OF assms] by blast

lemma fail_fast_next:
  assumes one: "fail_fast prefix1 (Ok x) cs1" and two: "fail_fast prefix r cs2"
  shows "fail_fast prefix r (cs1 @ cs2)"
  by (rule fail_fast_prepend [OF fail_fast_Ok_clean [OF one] two])

lemma fail_fast_get_instances:
  assumes "fail_fast ''failed to describe instances: '' (Err e) cs"
  shows "fail_fast ''failed to get instances: failed to describe instances: ''
           (Err (''failed to get instances: '' @ e)) cs"
  using fail_fast_wrap [OF assms, of "''failed to get instances: ''"] by simp

lemma fail_fast_not_returned:
  "fail_fast prefix (Panicked p) cs \<Longrightarrow> fail_fast prefix' (Panicked p) cs"
  "fail_fast prefix OutOfFuel cs \<Longrightarrow> fail_fast prefix' OutOfFuel cs"
  by (simp_all add: fail_fast_def)

lemma Discover_vpcs_fail_fast:
  "Discover_vpcs d fuel c filters excludeTags regionName vpcs ret w = (r, w') \<Longrightarrow>
   \<exists>cs. calls w' = calls w @ cs \<and>
        fail_fast ''failed to get instances: failed to describe instances: '' r cs"
proof (induction vpcs arbitrary: ret w)
  case Nil
  then show ?case by (auto simp: fail_fast_def)
next
  case (Cons vpc rest)
  obtain vpcFilters h' where
    app: "append_slice (growslice_cap d) filters (createVPCFilters vpc) (heap w) = (vpcFilters, h')"
    by (cases "append_slice (growslice_cap d) filters (createVPCFilters vpc) (heap w)")
  obtain r1 w1 where
    get: "GetInstances d fuel c vpcFilters excludeTags regionName (w\<lparr>heap := h'\<rparr>) = (r1, w1)"
    by (cases "GetInstances d fuel c vpcFilters excludeTags regionName (w\<lparr>heap := h'\<rparr>)")
  from GetInstances_fail_fast [OF get] obtain cs1 where
    cs1: "calls w1 = calls w @ cs1" and
    ff1: "fail_fast ''failed to describe instances: '' r1 cs1"
    by auto
  show ?case
  proof (cases r1)
    case (Ok instances)
    with Cons.prems app get have
      "Discover_vpcs d fuel c filters excludeTags regionName rest (ret @ instances) w1 = (r, w')"
      by simp
    from Cons.IH [OF this] obtain cs2 where
      cs2: "calls w' = calls w1 @ cs2" and
      ff2: "fail_fast ''failed to get instances: failed to describe instances: '' r cs2"
      by blast
    from ff1 Ok have "fail_fast ''failed to get instances: failed to describe instances: '' r
        (cs1 @ cs2)"
      by (intro fail_fast_next [OF _ ff2]) simp
    with cs1 cs2 show ?thesis by simp
  next
    case (Err err)
    with Cons.prems app get have "r = Err (''failed to get instances: '' @ err)" "w' = w1"
      by auto
    with cs1 fail_fast_get_instances [OF ff1 [unfolded Err]] show ?thesis by simp
  next
    case (Panicked p)
    with Cons.prems app get have "r = Panicked p" "w' = w1" by auto
    with cs1 fail_fast_not_returned(1) [OF ff1 [unfolded Panicked]] show ?thesis by simp
  next
    case OutOfFuel
    with Cons.prems app get have "r = OutOfFuel" "w' = w1" by auto
    with cs1 fail_fast_not_returned(2) [OF ff1 [unfolded OutOfFuel]] show ?thesis by simp
  qed
qed

lemma Discover_regions_fail_fast:
  "Discover_regions d fuel c filters excludeTags regions ret w = (r, w') \<Longrightarrow>
   \<exists>cs. calls w' = calls w @ cs \<and>
        fail_fast ''failed to get instances: failed to describe instances: '' r cs"
proof (induction regions arbitrary: ret w)
  case Nil
  then show ?case by (auto simp: fail_fast_def)
next
  case (Cons region rest)
  show ?case
  proof (cases "region_vpcs region = []")
    case True
    obtain r1 w1 where
      get: "GetInstances d fuel c filters excludeTags (region_name region) w = (r1, w1)"
      by (cases "GetInstances d fuel c filters excludeTags (region_name region) w")
    from GetInstances_fail_fast [OF get] obtain cs1 where
      cs1: "calls w1 = calls w @ cs1" and
      ff1: "fail_fast ''failed to describe instances: '' r1 cs1"
      by auto
    show ?thesis
    proof (cases r1)
      case (Ok instances)
      with Cons.prems True get have
        "Discover_regions d fuel c filters excludeTags rest (ret @ instances) w1 = (r, w')"
        by simp
      from Cons.IH [OF this] obtain cs2 where
        cs2: "calls w' = calls w1 @ cs2" and
        ff2: "fail_fast ''failed to get instances: failed to describe instances: '' r cs2"
        by blast
      from ff1 Ok have "fail_fast ''failed to get instances: failed to describe instances: '' r
          (cs1 @ cs2)"
        by (intro fail_fast_next [OF _ ff2]) simp
      with cs1 cs2 show ?thesis by simp
    next
      case (Err err)
      with Cons.prems True get have "r = Err (''failed to get instances: '' @ err)" "w' = w1"
        by auto
      with cs1 fail_fast_get_instances [OF ff1 [unfolded Err]] show ?thesis by simp
    next
      case (Panicked p)
      with Cons.prems True get have "r = Panicked p" "w' = w1" by auto
      with cs1 fail_fast_not_returned(1) [OF ff1 [unfolded Panicked]] show ?thesis by simp
    next
      case OutOfFuel
      with Cons.prems True get have "r = OutOfFuel" "w' = w1" by auto
      with cs1 fail_fast_not_returned(2) [OF ff1 [unfolded OutOfFuel]] show ?thesis by simp
    qed
  next
    case False
    obtain r1 w1 where
      vpcs: "Discover_vpcs d fuel c filters excludeTags (region_name region)
               (region_vpcs region) ret w = (r1, w1)"
      by (cases "Discover_vpcs d fuel c filters excludeTags (region_name region)
               (region_vpcs region) ret w")
    from Discover_vpcs_fail_fast [OF vpcs] obtain cs1 where
      cs1: "calls w1 = calls w @ cs1" and
      ff1: "fail_fast ''failed to get instances: failed to describe instances: '' r1 cs1"
      by auto
    show ?thesis
    proof (cases r1)
      case (Ok ret')
      with Cons.prems False vpcs have
        "Discover_regions d fuel c filters excludeTags rest ret' w1 = (r, w')"
        by simp
      from Cons.IH [OF this] obtain cs2 where
        cs2: "calls w' = calls w1 @ cs2" and
        ff2: "fail_fast ''failed to get instances: failed to describe instances: '' r cs2"
        by blast
      from ff1 Ok have "fail_fast ''failed to get instances: failed to describe instances: '' r
          (cs1 @ cs2)"
        by (intro fail_fast_next [OF _ ff2]) simp
      with cs1 cs2 show ?thesis by simp
    next
      case (Err err)
      with Cons.prems False vpcs have "r = r1" "w' = w1" by auto
      with cs1 ff1 show ?thesis by simp
    next
      case (Panicked p)
      with Cons.prems False vpcs have "r = r1" "w' = w1" by auto
      with cs1 ff1 show ?thesis by simp
    next
      case OutOfFuel
      with Cons.prems False vpcs have "r = r1" "w' = w1" by auto
      with cs1 ff1 show ?thesis by simp
    qed
  qed
qed

lemma getRegionsToScan_calls:
  assumes "getRegionsToScan c scope w = (r, w1)"
  shows "\<exists>cs. calls w1 = calls w @ cs \<and> list_all (\<lambda>x. \<not> failed_query x) cs"
proof (cases "AllRegions scope")
  case False
  with assms show ?thesis by (auto simp: getRegionsToScan_def)
next
  case True
  obtain res p' where
    call: "DescribeRegions (ec2Client c) (provider w) \<lparr>input_AllRegions = None\<rparr> = (res, p')"
    by (cases "DescribeRegions (ec2Client c) (provider w) \<lparr>input_AllRegions = None\<rparr>")
  have "calls w1 = calls w @ [DescribeRegionsCall \<lparr>input_AllRegions = None\<rparr> res]"
    using assms True call
    by (auto simp: getRegionsToScan_def ListAllRegions_def call_DescribeRegions_def
        split: sum.splits)
  then show ?thesis by simp
qed

lemma Discover_fail_fast:
  assumes "Discover d fuel c scanScope w = (r, w')"
  shows "\<exists>cs. calls w' = calls w @ cs \<and>
        fail_fast ''failed to get instances: failed to describe instances: '' r cs"
proof (cases "AsAwsScanScope d scanScope")
  case (Inl err)
  with assms have "w' = w" by (simp add: Discover_def)
  then show ?thesis by (simp add: fail_fast_def)
next
  case (Inr awsScanScope)
  let ?scope = "convertScope awsScanScope"
  obtain r1 w1 where regs: "getRegionsToScan c ?scope w = (r1, w1)"
    by (cases "getRegionsToScan c ?scope w")
  from getRegionsToScan_calls [OF regs] obtain cs1 where
    cs1: "calls w1 = calls w @ cs1" and clean: "list_all (\<lambda>x. \<not> failed_query x) cs1"
    by blast
  show ?thesis
  proof (cases "\<exists>regions. r1 = Ok regions \<and> regions \<noteq> []")
    case False
    with assms Inr regs have "w' = w1"
      by (cases r1) (auto simp: Discover_def)
    with cs1 clean show ?thesis by (auto simp: fail_fast_def)
  next
    case True
    then obtain regions where r1: "r1 = Ok regions" and some: "regions \<noteq> []" by blast
    obtain filters h where base: "Discover_base_filters d ?scope (heap w1) = (filters, h)"
      by (cases "Discover_base_filters d ?scope (heap w1)")
    from assms Inr regs r1 some base have
      "Discover_regions d fuel c filters (ExcludeTags ?scope) regions [] (w1\<lparr>heap := h\<rparr>) = (r, w')"
      by (simp add: Discover_def)
    from Discover_regions_fail_fast [OF this] obtain cs2 where
      cs2: "calls w' = calls w1 @ cs2" and
      ff: "fail_fast ''failed to get instances: failed to describe instances: '' r cs2"
      by auto
    from fail_fast_prepend [OF clean ff] cs1 cs2 show ?thesis by simp
  qed
qed

text \<open>
  C5. Whenever the provider answers an instance query of a discovery with an error,
  \<^verbatim>\<open>Discover\<close> returns an error (and with it no instance list, whatever earlier queries
  have found), namely the provider's message behind the prefixes of \<^verbatim>\<open>Discover\<close> and
  \<^verbatim>\<open>GetInstances\<close>, and the failed query is the last exchange of the discovery with
  the provider: it is not repeated and no other query follows. This holds for every
  bound on the pagination loop.
\<close>

theorem Discover_all_or_nothing:
  assumes i: "i < length (calls_since w (snd (Discover d fuel c scanScope w)))"
    and failed: "calls_since w (snd (Discover d fuel c scanScope w)) ! i =
                   DescribeInstancesCall regionID input (Inl err)"
  shows "fst (Discover d fuel c scanScope w) =
           Err (''failed to get instances: failed to describe instances: '' @ err) \<and>
         Suc i = length (calls_since w (snd (Discover d fuel c scanScope w)))"
proof -
  obtain r w' where run: "Discover d fuel c scanScope w = (r, w')"
    by (cases "Discover d fuel c scanScope w")
  from Discover_fail_fast [OF run] obtain cs where
    cs: "calls w' = calls w @ cs" and
    ff: "fail_fast ''failed to get instances: failed to describe instances: '' r cs"
    by blast
  have since: "calls_since w w' = cs" using cs by (simp add: calls_since_def)
  from i failed run since have "i < length cs"
    "cs ! i = DescribeInstancesCall regionID input (Inl err)" by simp_all
  from fail_fast_last [OF ff this] run since show ?thesis by simp
qed

section \<open>The properties on the example scope\<close>

lemmas run_defs =
  Discover_def convertScope_def convertRegions_def convertVPCs_def convertSecurityGroups_def
  convertTags_def convertBool_def getRegionsToScan_def Discover_base_filters_def
  append_slice_def nil_slice_def read_slice_def array_at_def zero_Filter_def
  createInclusionTagsFilters_def createInstanceStateFilters_def createVPCFilters_def
  getVPCSecurityGroupsIDs_def instanceStateFilterName_def vpcIDFilterName_def sgIDFilterName_def
  GetInstances_def GetInstances_pages.simps call_DescribeInstances_def
  getInstancesFromDescribeInstancesOutput_def hasExcludeTags_def
  fake_Client_def fake_world_def fake_DescribeInstances_def example_deps_def
  example_AwsScanScope_def example_pages_def example_instance_def empty_page_def
  nextslicecap_def Let_def

lemma example_convertScope:
  "convertScope example_AwsScanScope =
     \<lparr>AllRegions = False, Regions = example_regions, ScanStopped = False,
      TagSelector = [\<lparr>Key = ''env'', Val = ''prod''\<rparr>, \<lparr>Key = ''team'', Val = ''sec''\<rparr>],
      ExcludeTags = []\<rparr>"
  by (simp add: run_defs example_regions_def)

lemma example_filters_eq:
  "example_filters =
     (\<lparr>slice_array = Some 1, slice_len = 3, slice_cap = 4\<rparr>,
      [[\<lparr>Name = Some ''tag:env'', Values = [''prod'']\<rparr>,
        \<lparr>Name = Some ''tag:team'', Values = [''sec'']\<rparr>],
       example_base @ [\<lparr>Name = None, Values = []\<rparr>]])"
  by (simp add: example_filters_def example_convertScope example_base_def run_defs)

lemma example_vpcFilters_eq:
  "example_vpcFilters =
     (\<lparr>slice_array = Some 1, slice_len = 4, slice_cap = 4\<rparr>,
      [[\<lparr>Name = Some ''tag:env'', Values = [''prod'']\<rparr>,
        \<lparr>Name = Some ''tag:team'', Values = [''sec'']\<rparr>],
       example_base @ [\<lparr>Name = Some ''vpc-id'', Values = [''vpc-1'']\<rparr>]])"
  by (simp add: example_vpcFilters_def example_filters_eq example_base_def run_defs)

lemma example_run_heap:
  "heap (snd (Discover example_deps 0 fake_Client example_AwsScanScope
         (fake_world [] [Inr empty_page, Inr empty_page, Inr empty_page, Inr empty_page]))) =
     [[\<lparr>Name = Some ''tag:env'', Values = [''prod'']\<rparr>,
       \<lparr>Name = Some ''tag:team'', Values = [''sec'']\<rparr>],
      example_base @ [\<lparr>Name = Some ''vpc-id'', Values = [''vpc-3'']\<rparr>],
      example_base @ [\<lparr>Name = Some ''vpc-id'', Values = [''vpc-2'']\<rparr>,
                      \<lparr>Name = Some ''instance.group-id'', Values = [''sg-1'']\<rparr>,
                      \<lparr>Name = None, Values = []\<rparr>, \<lparr>Name = None, Values = []\<rparr>,
                      \<lparr>Name = None, Values = []\<rparr>]]"
  by (simp add: run_defs example_base_def)

lemma example_getRegionsToScan:
  "getRegionsToScan fake_Client (convertScope example_AwsScanScope) w = (Ok example_regions, w)"
  by (simp add: example_convertScope getRegionsToScan_def)

lemma example_base_eq:
  "createInclusionTagsFilters (TagSelector (convertScope example_AwsScanScope)) @
   createInstanceStateFilters (ScanStopped (convertScope example_AwsScanScope)) = example_base"
  by (simp add: example_convertScope example_base_def run_defs)

lemma example_world_queries:
  "map query_of (calls_since example_world
      (snd (Discover example_deps 2 fake_Client example_AwsScanScope example_world))) =
     [Some (''us-east-1'', example_base @ [\<lparr>Name = Some ''vpc-id'', Values = [''vpc-1'']\<rparr>]),
      Some (''us-east-1'', example_base @ [\<lparr>Name = Some ''vpc-id'', Values = [''vpc-1'']\<rparr>]),
      Some (''us-east-1'', example_base @ [\<lparr>Name = Some ''vpc-id'', Values = [''vpc-1'']\<rparr>]),
      Some (''us-east-1'', example_base @
         [\<lparr>Name = Some ''vpc-id'', Values = [''vpc-2'']\<rparr>,
          \<lparr>Name = Some ''instance.group-id'', Values = [''sg-1'']\<rparr>]),
      Some (''us-east-1'', example_base @ [\<lparr>Name = Some ''vpc-id'', Values = [''vpc-3'']\<rparr>]),
      Some (''eu-west-1'', example_base)]"
  by (simp add: run_defs example_world_def example_base_def calls_since_def numeral_2_eq_2)

lemma example_world_Ok:
  "is_Ok (fst (Discover example_deps 2 fake_Client example_AwsScanScope example_world))"
  by (simp add: run_defs example_world_def numeral_2_eq_2 is_Ok_def)

theorem Discover_queries_filters_witness:
  "AsAwsScanScope example_deps example_AwsScanScope = Inr example_AwsScanScope \<and>
   getRegionsToScan fake_Client (convertScope example_AwsScanScope) example_world =
     (Ok example_regions, example_world) \<and>
   example_regions \<noteq> [] \<and>
   follows_queries True (scope_queries example_base example_regions)
     (calls_since example_world
        (snd (Discover example_deps 2 fake_Client example_AwsScanScope example_world))) \<and>
   map query_of (calls_since example_world
      (snd (Discover example_deps 2 fake_Client example_AwsScanScope example_world))) =
     [Some (''us-east-1'', example_base @ [\<lparr>Name = Some ''vpc-id'', Values = [''vpc-1'']\<rparr>]),
      Some (''us-east-1'', example_base @ [\<lparr>Name = Some ''vpc-id'', Values = [''vpc-1'']\<rparr>]),
      Some (''us-east-1'', example_base @ [\<lparr>Name = Some ''vpc-id'', Values = [''vpc-1'']\<rparr>]),
      Some (''us-east-1'', example_base @
         [\<lparr>Name = Some ''vpc-id'', Values = [''vpc-2'']\<rparr>,
          \<lparr>Name = Some ''instance.group-id'', Values = [''sg-1'']\<rparr>]),
      Some (''us-east-1'', example_base @ [\<lparr>Name = Some ''vpc-id'', Values = [''vpc-3'']\<rparr>]),
      Some (''eu-west-1'', example_base)] \<and>
   read_slice (fst example_filters)
     (heap (snd (Discover example_deps 2 fake_Client example_AwsScanScope example_world))) =
     example_base"
proof -
  have conv: "AsAwsScanScope example_deps example_AwsScanScope = Inr example_AwsScanScope"
    by (simp add: example_deps_def)
  have regs: "getRegionsToScan fake_Client (convertScope example_AwsScanScope) example_world =
     (Ok example_regions, example_world)"
    by (rule example_getRegionsToScan)
  have some: "example_regions \<noteq> []" by (simp add: example_regions_def)
  have h: "heap example_world = []" by (simp add: example_world_def fake_world_def)
  show ?thesis
    using Discover_queries_filters [OF conv regs some, of 2]
    by (simp add: conv regs some example_base_eq example_world_Ok example_world_queries h
        example_filters_def [symmetric])
qed

text \<open>
  C1 as stated fails in its last part, that every VPC iteration works from an independent
  copy of the base collection. With Go's growth rule the base slice of the example has
  length 3 and capacity 4: the \<^verbatim>\<open>append\<close> for the first VPC allocates nothing, its slice
  has the array of the base slice, and when the discovery ends that slice holds the
  filter of the third VPC in place of the first one's.
\<close>

theorem Discover_vpc_slice_shares_array_counterexample:
  "slice_array (fst example_vpcFilters) = slice_array (fst example_filters) \<and>
   read_slice (fst example_vpcFilters) (snd example_vpcFilters) =
     example_base @ [\<lparr>Name = Some ''vpc-id'', Values = [''vpc-1'']\<rparr>] \<and>
   read_slice (fst example_vpcFilters)
     (heap (snd (Discover example_deps 0 fake_Client example_AwsScanScope
         (fake_world [] [Inr empty_page, Inr empty_page, Inr empty_page, Inr empty_page])))) =
     example_base @ [\<lparr>Name = Some ''vpc-id'', Values = [''vpc-3'']\<rparr>]"
  by (simp add: example_vpcFilters_eq example_filters_eq example_run_heap read_slice_def
      array_at_def example_base_def)

lemma example_failed_calls:
  "calls_since (fake_world [] [Inr empty_page])
     (snd (Discover example_deps 0 fake_Client example_AwsScanScope
             (fake_world [] [Inr empty_page]))) =
     [DescribeInstancesCall ''us-east-1''
        \<lparr>Filters = example_base @ [\<lparr>Name = Some ''vpc-id'', Values = [''vpc-1'']\<rparr>],
         MaxResults = Some 50, input_NextToken = None\<rparr> (Inr empty_page),
      DescribeInstancesCall ''us-east-1''
        \<lparr>Filters = example_base @
           [\<lparr>Name = Some ''vpc-id'', Values = [''vpc-2'']\<rparr>,
            \<lparr>Name = Some ''instance.group-id'', Values = [''sg-1'']\<rparr>],
         MaxResults = Some 50, input_NextToken = None\<rparr> (Inl ''RequestLimitExceeded'')]"
  by (simp add: run_defs example_base_def calls_since_def)

theorem Discover_all_or_nothing_witness:
  "calls_since (fake_world [] [Inr empty_page])
     (snd (Discover example_deps 0 fake_Client example_AwsScanScope
             (fake_world [] [Inr empty_page]))) ! 1 =
     DescribeInstancesCall ''us-east-1''
        \<lparr>Filters = example_base @
           [\<lparr>Name = Some ''vpc-id'', Values = [''vpc-2'']\<rparr>,
            \<lparr>Name = Some ''instance.group-id'', Values = [''sg-1'']\<rparr>],
         MaxResults = Some 50, input_NextToken = None\<rparr> (Inl ''RequestLimitExceeded'') \<and>
   fst (Discover example_deps 0 fake_Client example_AwsScanScope
          (fake_world [] [Inr empty_page])) =
     Err ''failed to get instances: failed to describe instances: RequestLimitExceeded'' \<and>
   length (calls_since (fake_world [] [Inr empty_page])
     (snd (Discover example_deps 0 fake_Client example_AwsScanScope
             (fake_world [] [Inr empty_page])))) = 2"
proof -
  let ?cs = "calls_since (fake_world [] [Inr empty_page])
     (snd (Discover example_deps 0 fake_Client example_AwsScanScope
             (fake_world [] [Inr empty_page])))"
  let ?failed = "DescribeInstancesCall ''us-east-1''
        \<lparr>Filters = example_base @
           [\<lparr>Name = Some ''vpc-id'', Values = [''vpc-2'']\<rparr>,
            \<lparr>Name = Some ''instance.group-id'', Values = [''sg-1'']\<rparr>],
         MaxResults = Some 50, input_NextToken = None\<rparr> (Inl ''RequestLimitExceeded'')"
  have i: "1 < length ?cs" by (simp add: example_failed_calls)
  have at: "?cs ! 1 = ?failed" by (simp add: example_failed_calls)
  from Discover_all_or_nothing [OF i at] at show ?thesis by simp
qed

end
